theory Spec2Isabelle
  imports Complex_Main "HOL-Library.Multiset"
begin

section \<open>JavaScript values\<close>

text \<open>
  The dashboard is TypeScript. Counters, loop indices and integer columns are \<open>int\<close>.
  Reading an array outside its bounds yields \<open>undefined\<close> in JavaScript; \<open>js_index\<close>
  returns \<open>None\<close> there, and \<open>===\<close> on two such reads is equality of options
  (\<open>undefined === undefined\<close> holds).
\<close>

definition js_index :: "'a list \<Rightarrow> int \<Rightarrow> 'a option" where
  "js_index xs i = (if 0 \<le> i \<and> i < int (length xs) then Some (xs ! nat i) else None)"

subsection \<open>Numbers\<close>

text \<open>
  A JavaScript number is a binary64 floating-point number, here the rational it denotes.
  \<open>exponent x\<close> is the \<open>e\<close> with \<open>2^e \<le> x < 2^(e+1)\<close> for a positive \<open>x\<close>; the
  binary64 numbers around \<open>x\<close> are the multiples of \<open>quantum x\<close>, which leaves 53
  significant bits, or of \<open>2^-1074\<close> for the subnormal numbers; \<open>binary64 x\<close> is the
  nearest of them, the one with the even multiple when two are equally near. Sums,
  products and quotients of the code are the exact ones, rounded. The overflow to
  \<open>Infinity\<close> from \<open>2^1024\<close> on is left out: percentages, scores and counts stay far
  below. No quotient of the code has a zero divisor where it is modelled by \<open>js_div\<close>:
  the divisors are counts of at least one result, and \<open>total_questions\<close>, for which
  zero is treated apart.
\<close>

function exponent :: "rat \<Rightarrow> int" where
  "exponent x =
     (if 2 \<le> x then exponent (x / 2) + 1
      else if 0 < x \<and> x < 1 then exponent (x * 2) - 1
      else 0)"
  by pat_completeness auto
termination
proof (relation "measure (\<lambda>x. if 2 \<le> x then nat \<lceil>x\<rceil> else if x < 1 then 1 + nat \<lceil>1 / x\<rceil> else 0)")
  show "wf (measure (\<lambda>x::rat. if 2 \<le> x then nat \<lceil>x\<rceil> else if x < 1 then 1 + nat \<lceil>1 / x\<rceil> else 0))"
    by simp
next
  fix x :: rat
  assume x: "2 \<le> x"
  have "\<lceil>x / 2\<rceil> \<le> \<lceil>x - 1\<rceil>"
    using x by (intro ceiling_mono) simp
  then have "\<lceil>x / 2\<rceil> < \<lceil>x\<rceil>" by simp
  moreover have "0 < \<lceil>x\<rceil>" using x by simp
  ultimately show "(x / 2, x) \<in> measure (\<lambda>x. if 2 \<le> x then nat \<lceil>x\<rceil> else if x < 1 then 1 + nat \<lceil>1 / x\<rceil> else 0)"
    using x by auto
next
  fix x :: rat
  assume "\<not> 2 \<le> x" and x: "0 < x \<and> x < 1"
  then have x0: "0 < x" and x1: "x < 1" by simp_all
  show "(x * 2, x) \<in> measure (\<lambda>x. if 2 \<le> x then nat \<lceil>x\<rceil> else if x < 1 then 1 + nat \<lceil>1 / x\<rceil> else 0)"
  proof (cases "x * 2 < 1")
    case True
    then have "2 \<le> 1 / x" using x0 by (simp add: field_simps)
    then have "\<lceil>(1 / x) / 2\<rceil> \<le> \<lceil>1 / x - 1\<rceil>"
      by (intro ceiling_mono) simp
    then have "\<lceil>1 / (x * 2)\<rceil> < \<lceil>1 / x\<rceil>" by (simp add: field_simps)
    moreover have "0 < \<lceil>1 / x\<rceil>" using x0 by simp
    ultimately show ?thesis using True x0 x1 by auto
  next
    case False
    then show ?thesis using x0 x1 by auto
  qed
qed

declare exponent.simps [simp del]

definition round_half_even :: "rat \<Rightarrow> int" where
  "round_half_even y =
     (let f = \<lfloor>y\<rfloor>; d = y - of_int f
      in if d < 1 / 2 then f
         else if 1 / 2 < d then f + 1
         else if even f then f else f + 1)"

definition quantum :: "rat \<Rightarrow> rat" where
  "quantum x = 2 powi (max (exponent \<bar>x\<bar>) (- 1022) - 52)"

definition binary64 :: "rat \<Rightarrow> rat" where
  "binary64 x = sgn x * (of_int (round_half_even (\<bar>x\<bar> / quantum x)) * quantum x)"

definition js_add :: "rat \<Rightarrow> rat \<Rightarrow> rat" where "js_add x y = binary64 (x + y)"
definition js_mul :: "rat \<Rightarrow> rat \<Rightarrow> rat" where "js_mul x y = binary64 (x * y)"
definition js_div :: "rat \<Rightarrow> rat \<Rightarrow> rat" where "js_div x y = binary64 (x / y)"

section \<open>Rows of the relational store\<close>

record subject_range =
  range_start :: int
  range_end :: int

text \<open>
  \<open>keyData\<close> of \<open>saveAnswerKey\<close>; an \<open>answer_keys\<close> row (interface \<open>AnswerKey\<close>)
  adds the identifier and the creation time. \<open>subject_breakdown\<close> is a JavaScript
  object, kept as its \<open>Object.entries\<close> list.
\<close>

record key_data =
  name :: string
  version :: string
  subject_breakdown :: "(string \<times> subject_range) list"
  answers :: "int list"
  total_questions :: int
  max_score :: int

record answer_key = key_data +
  key_id :: string
  key_created_at :: string

text \<open>
  The payload inserted into \<open>omr_results\<close>, which is also the row read back. The two
  decimal columns are rationals: in the payload the binary64 numbers computed by the stub,
  in a row read back the decimals of the store, which JavaScript reads as the nearest
  binary64 numbers.
\<close>

record omr_result =
  sheet_id :: string
  answer_key_id :: string
  detected_answers :: "int list"
  subject_scores :: "(string \<times> int) list"
  total_score :: int
  result_max_score :: int
  percentage :: rat
  correct_answers :: int
  incorrect_answers :: int
  unanswered :: int
  confidence_score :: rat
  processing_time :: int

section \<open>Scoring in \<open>simulateOMRProcessing\<close> (OMRUpload.tsx)\<close>

subsection \<open>The classification loop\<close>

text \<open>
  \<^verbatim>\<open>
  detectedAnswers.forEach((answer, index) => {
    if (answer === 0) { unanswered++; }
    else if (answer === correctAnswers[index]) { correct++; }
    else { incorrect++; }
  });
  \<close>
  The three counters are the state \<open>(correct, incorrect, unanswered)\<close>; the function takes
  the remaining answers and the index of the first of them.
\<close>

type_synonym counters = "int \<times> int \<times> int"

fun count_answers :: "int list \<Rightarrow> int list \<Rightarrow> int \<Rightarrow> counters \<Rightarrow> counters" where
  "count_answers correctAnswers [] index cs = cs"
| "count_answers correctAnswers (answer # rest) index (correct, incorrect, unanswered') =
     count_answers correctAnswers rest (index + 1)
       (if answer = 0 then (correct, incorrect, unanswered' + 1)
        else if Some answer = js_index correctAnswers index then (correct + 1, incorrect, unanswered')
        else (correct, incorrect + 1, unanswered'))"

definition score_counts :: "int list \<Rightarrow> int list \<Rightarrow> counters" where
  "score_counts detectedAnswers correctAnswers =
     count_answers correctAnswers detectedAnswers 0 (0, 0, 0)"

text \<open>The three classes of the specification, as predicates on a question index.\<close>

definition is_unanswered :: "int list \<Rightarrow> nat \<Rightarrow> bool" where
  "is_unanswered detectedAnswers i \<longleftrightarrow> detectedAnswers ! i = 0"

definition is_correct :: "int list \<Rightarrow> int list \<Rightarrow> nat \<Rightarrow> bool" where
  "is_correct detectedAnswers correctAnswers i \<longleftrightarrow>
     detectedAnswers ! i \<noteq> 0 \<and> detectedAnswers ! i = correctAnswers ! i"

definition is_incorrect :: "int list \<Rightarrow> int list \<Rightarrow> nat \<Rightarrow> bool" where
  "is_incorrect detectedAnswers correctAnswers i \<longleftrightarrow>
     detectedAnswers ! i \<noteq> 0 \<and> detectedAnswers ! i \<noteq> correctAnswers ! i"

definition how_many :: "(nat \<Rightarrow> bool) \<Rightarrow> nat \<Rightarrow> int" where
  "how_many P n = int (length (filter P [0..<n]))"

subsection \<open>Subject subtotals\<close>

text \<open>
  \<^verbatim>\<open>
  const start = range.start - 1;  const end = range.end - 1;
  let subjectCorrect = 0;
  for (let i = start; i <= end; i++) {
    if (detectedAnswers[i] === correctAnswers[i]) { subjectCorrect++; }
  }
  subjectScores[subject] = subjectCorrect;
  \<close>
  Both array reads may fall outside the arrays, where each yields \<open>undefined\<close>.
\<close>

function count_range :: "int list \<Rightarrow> int list \<Rightarrow> int \<Rightarrow> int \<Rightarrow> int \<Rightarrow> int" where
  "count_range detectedAnswers correctAnswers i end' subjectCorrect =
     (if i \<le> end'
      then count_range detectedAnswers correctAnswers (i + 1) end'
             (if js_index detectedAnswers i = js_index correctAnswers i
              then subjectCorrect + 1 else subjectCorrect)
      else subjectCorrect)"
  by pat_completeness auto
termination
  by (relation "measure (\<lambda>(ds, cas, i, e, c). nat (e + 1 - i))") auto

declare count_range.simps [simp del]

definition subject_correct :: "int list \<Rightarrow> int list \<Rightarrow> subject_range \<Rightarrow> int" where
  "subject_correct detectedAnswers correctAnswers range' =
     count_range detectedAnswers correctAnswers (range_start range' - 1) (range_end range' - 1) 0"

definition subject_scores_of ::
  "int list \<Rightarrow> int list \<Rightarrow> (string \<times> subject_range) list \<Rightarrow> (string \<times> int) list" where
  "subject_scores_of detectedAnswers correctAnswers subjectBreakdown =
     map (\<lambda>(subject, range'). (subject, subject_correct detectedAnswers correctAnswers range'))
       subjectBreakdown"

subsection \<open>Percentage\<close>

text \<open>
  \<open>x.toFixed(2)\<close>, as the decimal it prints. ECMAScript's \<open>toFixed\<close> sets the sign
  aside, then takes the integer \<open>n\<close> for which \<open>n / 100 - x\<close> is as close to zero as
  possible, the larger one when there are two; \<open>x\<close> is the exact value of the number.
  \<open>Number\<close> then reads the decimal as the nearest binary64 number.
\<close>

definition toFixed2 :: "rat \<Rightarrow> rat" where
  "toFixed2 x =
     (let a = \<bar>x\<bar>;
          lo = \<lfloor>a * 100\<rfloor>;
          n = (if a * 100 - of_int lo < 1 / 2 then lo else lo + 1)
      in if x < 0 then - (of_int n / 100) else of_int n / 100)"

text \<open>
  \<open>const percentage = (totalScore / answerKey.total_questions) * 100\<close>: a quotient and
  a product, each rounded.
\<close>

definition percentage_of :: "int \<Rightarrow> int \<Rightarrow> rat" where
  "percentage_of totalScore totalQuestions =
     js_mul (js_div (of_int totalScore) (of_int totalQuestions)) 100"

subsection \<open>The random stub\<close>

text \<open>
  \<open>Math.random\<close> is a sequence of draws, each a binary64 number in \<open>[0, 1)\<close>, and the
  position of the next draw. The detected answers are
  \<^verbatim>\<open>
  Array.from({ length: 100 }, () =>
    Math.random() > 0.1 ? Math.floor(Math.random() * 4) + 1 : 0)
  \<close>
  so a question consumes one draw when it stays unanswered and two otherwise.
\<close>

type_synonym rng = "nat \<Rightarrow> rat"

fun generate_answers :: "rng \<Rightarrow> nat \<Rightarrow> nat \<Rightarrow> int list \<times> nat" where
  "generate_answers rnd 0 k = ([], k)"
| "generate_answers rnd (Suc n) k =
     (if rnd k > binary64 (1 / 10)
      then (let (rest, k') = generate_answers rnd n (k + 2)
            in ((\<lfloor>js_mul (rnd (k + 1)) 4\<rfloor> + 1) # rest, k'))
      else (let (rest, k') = generate_answers rnd n (k + 1)
            in (0 # rest, k')))"

subsection \<open>\<open>simulateOMRProcessing\<close>\<close>

text \<open>
  \<open>answerKeys\<close> is what the query for the selected version returned (at most one row);
  without a row the function returns before writing anything. The result is the row
  written to \<open>omr_results\<close>. With \<open>total_questions = 0\<close> the quotient is \<open>NaN\<close> or
  \<open>Infinity\<close>, which is sent as \<open>null\<close> to a \<open>NOT NULL\<close> column: no row is written.
\<close>

definition simulateOMRProcessing :: "string \<Rightarrow> answer_key list \<Rightarrow> rng \<Rightarrow> omr_result option" where
  "simulateOMRProcessing sheetId answerKeys rnd =
     (case answerKeys of
        [] \<Rightarrow> None
      | answerKey # _ \<Rightarrow>
          (let (detectedAnswers, k) = generate_answers rnd 100 0;
               correctAnswers = answers answerKey;
               (correct, incorrect, unanswered') = score_counts detectedAnswers correctAnswers;
               subjectScores =
                 subject_scores_of detectedAnswers correctAnswers (subject_breakdown answerKey);
               totalScore = correct
           in if total_questions answerKey = 0 then None
              else Some \<lparr>
                sheet_id = sheetId,
                answer_key_id = key_id answerKey,
                detected_answers = detectedAnswers,
                subject_scores = subjectScores,
                total_score = totalScore,
                result_max_score = max_score answerKey,
                percentage =
                  binary64 (toFixed2 (percentage_of totalScore (total_questions answerKey))),
                correct_answers = correct,
                incorrect_answers = incorrect,
                unanswered = unanswered',
                confidence_score = js_add (js_mul (rnd k) 20) 80,
                processing_time = \<lfloor>js_mul (rnd (k + 1)) 5000\<rfloor> + 1000 \<rparr>))"

subsection \<open>The specification's formulas\<close>

text \<open>
  Rounding to two decimal places, half away from zero, as the specification words it; the
  specification's percentage \<open>totalScore / maxScore * 100\<close>; and the specification's subject
  subtotal: the number of questions classified correct whose 1-based index lies in the
  inclusive range of the subject.
\<close>

definition round_half_away_2dp :: "rat \<Rightarrow> rat" where
  "round_half_away_2dp x = sgn x * (of_int \<lfloor>\<bar>x\<bar> * 100 + 1 / 2\<rfloor> / 100)"

definition spec_percentage :: "int \<Rightarrow> int \<Rightarrow> rat" where
  "spec_percentage totalScore maxScore =
     round_half_away_2dp (of_int totalScore / of_int maxScore * 100)"

definition correct_in_range :: "int list \<Rightarrow> int list \<Rightarrow> subject_range \<Rightarrow> int" where
  "correct_in_range detectedAnswers correctAnswers range' =
     how_many (\<lambda>i. range_start range' \<le> int i + 1 \<and> int i + 1 \<le> range_end range'
                   \<and> is_correct detectedAnswers correctAnswers i)
       (length detectedAnswers)"

subsection \<open>Sample rows\<close>

text \<open>
  The breakdown that the answer-key form proposes, and three keys of 100 questions: one
  as the form saves it, one whose \<open>max_score\<close> is 200, and one whose last subject was
  entered as 81 to 110.
\<close>

definition default_breakdown :: "(string \<times> subject_range) list" where
  "default_breakdown =
     [(''english'', \<lparr>range_start = 1, range_end = 20\<rparr>),
      (''math'', \<lparr>range_start = 21, range_end = 40\<rparr>),
      (''science'', \<lparr>range_start = 41, range_end = 60\<rparr>),
      (''social'', \<lparr>range_start = 61, range_end = 80\<rparr>),
      (''hindi'', \<lparr>range_start = 81, range_end = 100\<rparr>)]"

definition key_all_threes :: answer_key where
  "key_all_threes =
     \<lparr>name = ''Sample Exam 2024'', version = ''A'', subject_breakdown = default_breakdown,
      answers = replicate 100 3, total_questions = 100, max_score = 100,
      key_id = ''key-1'', key_created_at = ''2025-09-21''\<rparr>"

definition key_max_200 :: answer_key where
  "key_max_200 = key_all_threes\<lparr>max_score := 200\<rparr>"

definition key_hindi_110 :: answer_key where
  "key_hindi_110 =
     \<lparr>name = ''Sample Exam 2024'', version = ''A'',
      subject_breakdown = butlast default_breakdown
        @ [(''hindi'', \<lparr>range_start = 81, range_end = 110\<rparr>)],
      answers = replicate 100 1, total_questions = 100, max_score = 100,
      key_id = ''key-2'', key_created_at = ''2025-09-21''\<rparr>"

text \<open>
  A generator whose every draw is one half: every question is answered with option 3.
  A generator whose every draw is the binary64 number \<open>1 - 2^-52\<close>.
\<close>

definition always_half :: rng where
  "always_half n = 1 / 2"

definition always_almost_one :: rng where
  "always_almost_one n = 1 - 1 / 2 ^ 52"

section \<open>Saving an answer key: \<open>saveAnswerKey\<close> (AnswerKeyManager.tsx)\<close>

subsection \<open>Parsing the answer pattern\<close>

text \<open>
  \<^verbatim>\<open>
  formData.answersText.split(',').map(a => parseInt(a.trim())).filter(a => !isNaN(a))
  \<close>
  Strings are lists of characters with codes below 256, so the white space that \<open>trim\<close>
  and \<open>parseInt\<close> skip is tab, line feed, vertical tab, form feed, carriage return,
  space and the no-break space. \<open>split_comma\<close> is \<open>split(',')\<close>: the empty string gives
  one empty piece.
\<close>

fun split_comma :: "string \<Rightarrow> string list" where
  "split_comma [] = [[]]"
| "split_comma (c # cs) =
     (if c = CHR '','' then [] # split_comma cs
      else (case split_comma cs of
              [] \<Rightarrow> [[c]]
            | piece # pieces \<Rightarrow> (c # piece) # pieces))"

definition is_white_space :: "char \<Rightarrow> bool" where
  "is_white_space c \<longleftrightarrow> of_char c \<in> set [9, 10, 11, 12, 13, 32, 160 :: nat]"

definition trim :: "string \<Rightarrow> string" where
  "trim s = rev (dropWhile is_white_space (rev (dropWhile is_white_space s)))"

text \<open>The value of a character as a digit, for any radix up to 36.\<close>

definition digit_value :: "char \<Rightarrow> nat option" where
  "digit_value c =
     (let n = of_char c :: nat
      in if 48 \<le> n \<and> n \<le> 57 then Some (n - 48)
         else if 97 \<le> n \<and> n \<le> 122 then Some (n - 87)
         else if 65 \<le> n \<and> n \<le> 90 then Some (n - 55)
         else None)"

definition is_digit :: "nat \<Rightarrow> char \<Rightarrow> bool" where
  "is_digit radix c = (case digit_value c of None \<Rightarrow> False | Some d \<Rightarrow> d < radix)"

definition digits_value :: "nat \<Rightarrow> string \<Rightarrow> int" where
  "digits_value radix ds = foldl (\<lambda>acc c. acc * int radix + int (the (digit_value c))) 0 ds"

text \<open>
  \<open>parseInt\<close> without a radix: leading white space is skipped, then an optional sign,
  then \<open>0x\<close> or \<open>0X\<close> selects radix 16; the longest prefix of digits is the number and
  what follows is ignored. Without a digit the result is \<open>NaN\<close>, here \<open>None\<close>. The
  value is exact; JavaScript rounds beyond \<open>2^53\<close>, which moves no value across 1 or 4.
\<close>

definition parseInt :: "string \<Rightarrow> int option" where
  "parseInt s =
     (let s1 = dropWhile is_white_space s;
          negative = (s1 \<noteq> [] \<and> hd s1 = CHR ''-'');
          s2 = (if s1 \<noteq> [] \<and> (hd s1 = CHR ''+'' \<or> hd s1 = CHR ''-'') then tl s1 else s1);
          hex = (take 2 s2 = ''0x'' \<or> take 2 s2 = ''0X'');
          radix = (if hex then 16 else 10);
          s3 = (if hex then drop 2 s2 else s2);
          z = takeWhile (is_digit radix) s3
      in if z = [] then None
         else Some (if negative then - digits_value radix z else digits_value radix z))"

definition parse_answers :: "string \<Rightarrow> int list" where
  "parse_answers answersText =
     map the (filter (\<lambda>a. a \<noteq> None) (map (\<lambda>a. parseInt (trim a)) (split_comma answersText)))"

subsection \<open>The form, the store and the outcome\<close>

record form_data =
  form_name :: string
  form_version :: string
  answersText :: string
  subjectBreakdown :: "(string \<times> subject_range) list"

text \<open>
  The two calls on the \<open>answer_keys\<close> table: \<open>update(keyData).eq('id', id)\<close> and
  \<open>insert([keyData])\<close>. The store answers a call with an error message or with none.
\<close>

datatype db_request = Update string key_data | Insert "key_data list"

type_synonym answer_keys_store = "db_request \<Rightarrow> string option"

record toast =
  title :: string
  description :: string
  destructive :: bool

text \<open>
  What one run of \<open>saveAnswerKey\<close> does: the call it sent to the store, if any, the toast
  it showed, and whether it closed the dialog (after which the list is reloaded and
  \<open>onUpdate\<close> runs).
\<close>

record save_outcome =
  request :: "db_request option"
  shown :: toast
  dialog_closed :: bool

definition validation_error :: "string \<Rightarrow> save_outcome" where
  "validation_error text =
     \<lparr>request = None,
      shown = \<lparr>title = ''Validation Error'', description = text, destructive = True\<rparr>,
      dialog_closed = False\<rparr>"

text \<open>
  The \<open>catch\<close> branch: the toast shows \<open>error.message || "Failed to save answer key"\<close>.
\<close>

definition save_failed :: "db_request \<Rightarrow> string \<Rightarrow> save_outcome" where
  "save_failed sent message =
     \<lparr>request = Some sent,
      shown = \<lparr>title = ''Error'',
               description = (if message = [] then ''Failed to save answer key'' else message),
               destructive = True\<rparr>,
      dialog_closed = False\<rparr>"

definition save_succeeded :: "db_request \<Rightarrow> string \<Rightarrow> save_outcome" where
  "save_succeeded sent text =
     \<lparr>request = Some sent,
      shown = \<lparr>title = ''Success'', description = text, destructive = False\<rparr>,
      dialog_closed = True\<rparr>"

definition saveAnswerKey ::
  "form_data \<Rightarrow> answer_key option \<Rightarrow> answer_keys_store \<Rightarrow> save_outcome" where
  "saveAnswerKey formData editingKey store =
     (if form_name formData = [] \<or> form_version formData = [] \<or> answersText formData = []
      then validation_error ''Please fill in all required fields''
      else
        let answers' = parse_answers (answersText formData)
        in if length answers' \<noteq> 100
           then validation_error ''Please provide exactly 100 answers (1-4 for each question)''
           else if list_ex (\<lambda>a. a < 1 \<or> a > 4) answers'
           then validation_error ''All answers must be between 1 and 4''
           else
             let keyData = \<lparr>name = form_name formData,
                            version = form_version formData,
                            subject_breakdown = subjectBreakdown formData,
                            answers = answers',
                            total_questions = 100,
                            max_score = 100\<rparr>
             in (case editingKey of
                   Some key \<Rightarrow>
                     (case store (Update (key_id key) keyData) of
                        Some message \<Rightarrow> save_failed (Update (key_id key) keyData) message
                      | None \<Rightarrow>
                          save_succeeded (Update (key_id key) keyData)
                            ''Answer key updated successfully'')
                 | None \<Rightarrow>
                     (case store (Insert [keyData]) of
                        Some message \<Rightarrow> save_failed (Insert [keyData]) message
                      | None \<Rightarrow>
                          save_succeeded (Insert [keyData])
                            ''Answer key created successfully'')))"

subsection \<open>The specification's validation of a breakdown\<close>

text \<open>
  The checks the specification asks of \<open>validate\<close>: two ranges overlap when they share a
  question; a breakdown leaves a gap when a question of \<open>[1, totalQuestions]\<close> is in no
  range.
\<close>

fun spec_range_overlap :: "subject_range list \<Rightarrow> bool" where
  "spec_range_overlap [] = False"
| "spec_range_overlap (r # rs) =
     (list_ex (\<lambda>s. max (range_start r) (range_start s) \<le> min (range_end r) (range_end s)) rs
      \<or> spec_range_overlap rs)"

definition spec_range_gap :: "subject_range list \<Rightarrow> int \<Rightarrow> bool" where
  "spec_range_gap rs totalQuestions =
     list_ex (\<lambda>q. \<not> list_ex (\<lambda>r. range_start r \<le> q \<and> q \<le> range_end r) rs)
       [1..totalQuestions]"

subsection \<open>Sample forms\<close>

text \<open>
  One hundred answers \<open>1,1,...,1\<close>; the specification's two rejected breakdowns (the first
  overlaps on 15 to 20, the second misses question 21 of 40); a store that accepts every
  call.
\<close>

definition hundred_ones :: string where
  "hundred_ones = concat (replicate 99 ''1,'') @ ''1''"

definition overlapping_breakdown :: "(string \<times> subject_range) list" where
  "overlapping_breakdown =
     [(''a'', \<lparr>range_start = 1, range_end = 20\<rparr>), (''b'', \<lparr>range_start = 15, range_end = 40\<rparr>)]"

definition gapped_breakdown :: "(string \<times> subject_range) list" where
  "gapped_breakdown =
     [(''a'', \<lparr>range_start = 1, range_end = 20\<rparr>), (''b'', \<lparr>range_start = 22, range_end = 40\<rparr>)]"

definition form_with :: "string \<Rightarrow> (string \<times> subject_range) list \<Rightarrow> form_data" where
  "form_with text breakdown =
     \<lparr>form_name = ''Final Exam 2024'', form_version = ''A'', answersText = text,
      subjectBreakdown = breakdown\<rparr>"

definition accepting_store :: answer_keys_store where
  "accepting_store call = None"

section \<open>Sheets with their results\<close>

text \<open>
  The two columns of \<open>omr_sheets\<close> that the analytics query joins to a result, and the
  whole sheet as the results table holds it (interface \<open>OMRSheet\<close>), with its result when
  there is one. Nullable text columns are options.
\<close>

record sheet_columns =
  sheet_version :: string
  created_at :: string

record omr_sheet = sheet_columns +
  student_name :: "string option"
  student_id :: "string option"
  roll_number :: "string option"
  original_filename :: string
  status :: string
  result :: "omr_result option"

section \<open>Cohort statistics: \<open>loadAnalyticsData\<close> (AnswerKeyManager.tsx, \<open>OMRAnalytics\<close>)\<close>

text \<open>
  A row of the query: a result and the joined columns of its sheet; its percentage and
  its subject scores reach the code as binary64 numbers. \<open>Record\<close> objects keyed by
  subject or version are finite maps, without the order of their properties.
  \<open>Math.round\<close> rounds halves upwards.
\<close>

type_synonym joined_result = "omr_result \<times> sheet_columns"

record performance =
  average :: rat
  count' :: nat

record trend =
  trend_date :: string
  trend_averageScore :: int
  trend_count :: nat

record analytics_data =
  totalStudents :: nat
  averageScore :: int
  highestScore :: int
  lowestScore :: int
  subjectPerformance :: "string \<rightharpoonup> performance"
  versionPerformance :: "string \<rightharpoonup> performance"
  scoreDistribution :: "(string \<times> nat) list"
  recentTrends :: "trend list"

definition math_round :: "rat \<Rightarrow> int" where
  "math_round x = \<lfloor>x + 1 / 2\<rfloor>"

text \<open>
  \<^verbatim>\<open>
  if (!acc[key]) { acc[key] = { total: 0, count: 0 }; }
  acc[key].total += value;  acc[key].count += 1;
  \<close>
  used with the subject scores of a result and with its percentage under its version.
\<close>

definition add_to :: "string \<times> rat \<Rightarrow> (string \<rightharpoonup> rat \<times> nat) \<Rightarrow> (string \<rightharpoonup> rat \<times> nat)" where
  "add_to entry acc =
     (case entry of (key, value) \<Rightarrow>
        (case acc key of
           None \<Rightarrow> acc(key \<mapsto> (js_add 0 value, 0 + 1))
         | Some (tot, cnt) \<Rightarrow> acc(key \<mapsto> (js_add tot value, cnt + 1))))"


definition subject_totals :: "joined_result list \<Rightarrow> (string \<rightharpoonup> rat \<times> nat)" where
  "subject_totals results =
     fold (\<lambda>result acc.
             fold (\<lambda>(subject, score) acc'. add_to (subject, binary64 (of_int score)) acc')
               (subject_scores (fst result)) acc)
       results Map.empty"

definition version_totals :: "joined_result list \<Rightarrow> (string \<rightharpoonup> rat \<times> nat)" where
  "version_totals results =
     fold (\<lambda>result acc.
             add_to (sheet_version (snd result), binary64 (percentage (fst result))) acc)
       results Map.empty"

text \<open>\<open>{ average: data.total / data.count, count: data.count }\<close> for every entry.\<close>

definition averages :: "(string \<rightharpoonup> rat \<times> nat) \<Rightarrow> (string \<rightharpoonup> performance)" where
  "averages totals key =
     (case totals key of
        None \<Rightarrow> None
      | Some (tot, cnt) \<Rightarrow> Some \<lparr>average = js_div tot (of_nat cnt), count' = cnt\<rparr>)"

definition scoreRanges :: "(string \<times> rat \<times> rat) list" where
  "scoreRanges =
     [(''90-100%'', 90, 100),
      (''80-89%'', 80, 89),
      (''70-79%'', 70, 79),
      (''60-69%'', 60, 69),
      (''50-59%'', 50, 59),
      (''0-49%'', 0, 49)]"

definition score_distribution :: "rat list \<Rightarrow> (string \<times> nat) list" where
  "score_distribution scores =
     map (\<lambda>(label, min', max').
            (label, length (filter (\<lambda>score. score \<ge> min' \<and> score \<le> max') scores)))
       scoreRanges"

text \<open>
  The calendar is given from outside: \<open>iso_day\<close> maps a time stamp to its date as
  \<open>new Date(t).toISOString().split('T')[0]\<close> does, and \<open>days_ago i\<close> is the day \<open>i\<close>
  days before today, as the date string compared with the results and as the label shown.
\<close>

definition recent_trends ::
  "(string \<Rightarrow> string) \<Rightarrow> (nat \<Rightarrow> string \<times> string) \<Rightarrow> joined_result list \<Rightarrow> trend list" where
  "recent_trends iso_day days_ago results =
     map (\<lambda>i.
            let (dateString, label) = days_ago i;
                dayResults = filter (\<lambda>result. iso_day (created_at (snd result)) = dateString) results;
                dayAverage =
                  (if length dayResults > 0
                   then js_div
                          (foldl (\<lambda>sum r. js_add sum (binary64 (percentage (fst r)))) 0
                             dayResults)
                          (of_nat (length dayResults))
                   else 0)
            in \<lparr>trend_date = label,
                trend_averageScore = math_round dayAverage,
                trend_count = length dayResults\<rparr>)
       (rev [0..<7])"

definition loadAnalyticsData ::
  "(string \<Rightarrow> string) \<Rightarrow> (nat \<Rightarrow> string \<times> string) \<Rightarrow> joined_result list \<Rightarrow> analytics_data" where
  "loadAnalyticsData iso_day days_ago results =
     (if length results = 0
      then \<lparr>totalStudents = 0, averageScore = 0, highestScore = 0, lowestScore = 0,
             subjectPerformance = Map.empty, versionPerformance = Map.empty,
             scoreDistribution = [], recentTrends = []\<rparr>
      else
        let scores = map (\<lambda>r. binary64 (percentage (fst r))) results;
            totalStudents' = length results;
            averageScore' =
              js_div (foldl (\<lambda>sum score. js_add sum score) 0 scores) (of_nat totalStudents');
            highestScore' = Max (set scores);
            lowestScore' = Min (set scores)
        in \<lparr>totalStudents = totalStudents',
             averageScore = math_round averageScore',
             highestScore = math_round highestScore',
             lowestScore = math_round lowestScore',
             subjectPerformance = averages (subject_totals results),
             versionPerformance = averages (version_totals results),
             scoreDistribution = score_distribution scores,
             recentTrends = recent_trends iso_day days_ago results\<rparr>)"

text \<open>
  The histogram of the specification: \<open>[0,50)\<close>, \<open>[50,60)\<close>, \<open>[60,70)\<close>, \<open>[70,80)\<close>,
  \<open>[80,90)\<close> and \<open>[90,100]\<close>, each with the number of percentages it holds.
\<close>

definition spec_distribution :: "rat list \<Rightarrow> nat list" where
  "spec_distribution scores =
     [length (filter (\<lambda>s. 0 \<le> s \<and> s < 50) scores),
      length (filter (\<lambda>s. 50 \<le> s \<and> s < 60) scores),
      length (filter (\<lambda>s. 60 \<le> s \<and> s < 70) scores),
      length (filter (\<lambda>s. 70 \<le> s \<and> s < 80) scores),
      length (filter (\<lambda>s. 80 \<le> s \<and> s < 90) scores),
      length (filter (\<lambda>s. 90 \<le> s \<and> s \<le> 100) scores)]"

subsection \<open>Sample results\<close>

text \<open>
  A calendar for time stamps written as \<open>YYYY-MM-DDThh:mm:ssZ\<close>, with a week that ends on
  21 September 2025, and a result of a given percentage and version on a given day.
\<close>

definition sample_iso_day :: "string \<Rightarrow> string" where
  "sample_iso_day t = take 10 t"

definition sample_days_ago :: "nat \<Rightarrow> string \<times> string" where
  "sample_days_ago i =
     ([''2025-09-21'', ''2025-09-20'', ''2025-09-19'', ''2025-09-18'', ''2025-09-17'',
       ''2025-09-16'', ''2025-09-15''] ! i,
      [''Sep 21'', ''Sep 20'', ''Sep 19'', ''Sep 18'', ''Sep 17'', ''Sep 16'', ''Sep 15''] ! i)"

definition sample_result :: "rat \<Rightarrow> (string \<times> int) list \<Rightarrow> string \<Rightarrow> string \<Rightarrow> joined_result" where
  "sample_result p scores v day =
     (\<lparr>sheet_id = ''sheet-1'', answer_key_id = ''key-1'', detected_answers = [],
       subject_scores = scores, total_score = \<lfloor>p\<rfloor>, result_max_score = 100, percentage = p,
       correct_answers = \<lfloor>p\<rfloor>, incorrect_answers = 100 - \<lfloor>p\<rfloor>, unanswered = 0,
       confidence_score = 90, processing_time = 3500\<rparr>,
      \<lparr>sheet_version = v, created_at = day @ ''T06:22:54Z''\<rparr>)"

section \<open>The CSV export: \<open>exportToCSV\<close> (\<open>OMRResults\<close>)\<close>

text \<open>
  A cell of \<open>csvData\<close> is a string or a number. \<open>x || ''\<close> yields the empty string when
  \<open>x\<close> is \<open>null\<close>, \<open>undefined\<close>, the empty string or the number 0, and \<open>x\<close> otherwise;
  optional chaining on a sheet without result yields \<open>undefined\<close>.
\<close>

datatype cell = Text string | Number rat

definition string_or_empty :: "string option \<Rightarrow> cell" where
  "string_or_empty x = (case x of None \<Rightarrow> Text [] | Some s \<Rightarrow> Text s)"

definition number_or_empty :: "rat option \<Rightarrow> cell" where
  "number_or_empty x =
     (case x of None \<Rightarrow> Text [] | Some n \<Rightarrow> if n = 0 then Text [] else Number n)"

text \<open>\<open>sheet.result?.subject_scores?.english\<close> and its four siblings.\<close>

definition subject_score :: "omr_sheet \<Rightarrow> string \<Rightarrow> rat option" where
  "subject_score sheet subject =
     (case result sheet of
        None \<Rightarrow> None
      | Some r \<Rightarrow> map_option of_int (map_of (subject_scores r) subject))"

text \<open>
  One row of \<open>csvData\<close>. \<open>toLocaleDateString\<close> stands for
  \<open>new Date(t).toLocaleDateString()\<close>.
\<close>

definition csv_row :: "(string \<Rightarrow> string) \<Rightarrow> omr_sheet \<Rightarrow> cell list" where
  "csv_row toLocaleDateString sheet =
     [string_or_empty (student_name sheet),
      string_or_empty (student_id sheet),
      string_or_empty (roll_number sheet),
      Text (sheet_version sheet),
      Text (status sheet),
      number_or_empty (map_option (\<lambda>r. of_int (total_score r)) (result sheet)),
      number_or_empty (map_option percentage (result sheet)),
      number_or_empty (subject_score sheet ''english''),
      number_or_empty (subject_score sheet ''math''),
      number_or_empty (subject_score sheet ''science''),
      number_or_empty (subject_score sheet ''social''),
      number_or_empty (subject_score sheet ''hindi''),
      number_or_empty (map_option (\<lambda>r. of_int (correct_answers r)) (result sheet)),
      number_or_empty (map_option (\<lambda>r. of_int (incorrect_answers r)) (result sheet)),
      number_or_empty (map_option (\<lambda>r. of_int (unanswered r)) (result sheet)),
      number_or_empty (map_option confidence_score (result sheet)),
      Text (toLocaleDateString (created_at sheet))]"

definition headers :: "string list" where
  "headers =
     [''Student Name'', ''Student ID'', ''Roll Number'', ''Version'', ''Status'',
      ''Total Score'', ''Percentage'', ''English'', ''Math'', ''Science'', ''Social'', ''Hindi'',
      ''Correct'', ''Incorrect'', ''Unanswered'', ''Confidence'', ''Upload Date'']"

text \<open>
  \<open>row.map(cell => `"${cell}"`).join(',')\<close> and the lines joined by line feeds.
  \<open>number_text\<close> stands for the conversion of a number to a string.
\<close>

definition quoted :: "(rat \<Rightarrow> string) \<Rightarrow> cell \<Rightarrow> string" where
  "quoted number_text c =
     (case c of
        Text s \<Rightarrow> [CHR 0x22] @ s @ [CHR 0x22]
      | Number n \<Rightarrow> [CHR 0x22] @ number_text n @ [CHR 0x22])"

fun join :: "string \<Rightarrow> string list \<Rightarrow> string" where
  "join separator [] = []"
| "join separator [piece] = piece"
| "join separator (piece # pieces) = piece @ separator @ join separator pieces"

definition exportToCSV ::
  "(rat \<Rightarrow> string) \<Rightarrow> (string \<Rightarrow> string) \<Rightarrow> omr_sheet list \<Rightarrow> string" where
  "exportToCSV number_text toLocaleDateString filteredSheets =
     join [CHR 0x0A]
       (map (\<lambda>row. join '','' (map (quoted number_text) row))
          (map Text headers # map (csv_row toLocaleDateString) filteredSheets))"

subsection \<open>Sample sheets\<close>

text \<open>
  A completed sheet without a result, and the same sheet with a result in which every
  answer was wrong: the scores are 0, as are the numbers of correct and of unanswered
  questions.
\<close>

definition sheet_without_result :: omr_sheet where
  "sheet_without_result =
     \<lparr>sheet_version = ''A'', created_at = ''2025-09-21T06:22:54Z'',
      student_name = Some ''Asha'', student_id = None, roll_number = Some ''17'',
      original_filename = ''asha.png'', status = ''completed'', result = None\<rparr>"

definition zero_result :: omr_result where
  "zero_result =
     \<lparr>sheet_id = ''sheet-1'', answer_key_id = ''key-1'', detected_answers = replicate 100 3,
      subject_scores = [(''english'', 0), (''math'', 0), (''science'', 0), (''social'', 0),
        (''hindi'', 0)],
      total_score = 0, result_max_score = 100, percentage = 0,
      correct_answers = 0, incorrect_answers = 100, unanswered = 0,
      confidence_score = 90, processing_time = 3500\<rparr>"

definition sheet_with_zero_result :: omr_sheet where
  "sheet_with_zero_result = sheet_without_result\<lparr>result := Some zero_result\<rparr>"

section \<open>Properties of binary64 rounding\<close>

lemma two_powi_pos: "0 < (2::rat) powi e"
  by (simp add: zero_less_power_int)

lemma two_powi_Suc: "(2::rat) powi (e + 1) = 2 * 2 powi e"
  by (simp add: power_int_add_1')

lemma two_powi_pred: "(2::rat) powi (e - 1) = 2 powi e / 2"
  using two_powi_Suc [of "e - 1"] by simp

lemma two_powi_quot: "(2::rat) powi a / 2 powi b = 2 powi (a - b)"
  by (simp add: power_int_diff)

lemma two_powi_le: "a \<le> b \<Longrightarrow> (2::rat) powi a \<le> 2 powi b"
  by (rule power_int_increasing) simp_all

lemma two_powi_less: "a < b \<Longrightarrow> (2::rat) powi a < 2 powi b"
  by (rule power_int_strict_increasing) simp_all

lemma exponent_bounds:
  "0 < x \<Longrightarrow> 2 powi (exponent x) \<le> x \<and> x < 2 powi (exponent x + 1)"
proof (induction x rule: exponent.induct)
  case (1 x)
  show ?case
  proof (cases "2 \<le> x")
    case True
    then have e: "exponent x = exponent (x / 2) + 1"
      by (subst exponent.simps) simp
    have "0 < x / 2" using True by simp
    from "1.IH"(1) [OF True this]
    have "2 powi (exponent (x / 2)) \<le> x / 2" "x / 2 < 2 powi (exponent (x / 2) + 1)"
      by simp_all
    moreover have "(2::rat) powi (exponent (x / 2) + 1) = 2 * 2 powi (exponent (x / 2))"
      "(2::rat) powi (exponent (x / 2) + 1 + 1) = 2 * 2 powi (exponent (x / 2) + 1)"
      by (rule two_powi_Suc)+
    ultimately show ?thesis
      unfolding e by linarith
  next
    case False
    show ?thesis
    proof (cases "x < 1")
      case True
      with "1.prems" have c: "0 < x \<and> x < 1" by simp
      then have e: "exponent x = exponent (x * 2) - 1"
        using False by (subst exponent.simps) simp
      have "0 < x * 2" using c by simp
      from "1.IH"(2) [OF False c this]
      have "2 powi (exponent (x * 2)) \<le> x * 2" "x * 2 < 2 powi (exponent (x * 2) + 1)"
        by simp_all
      moreover have "(2::rat) powi (exponent (x * 2) - 1) = 2 powi (exponent (x * 2)) / 2"
        by (rule two_powi_pred)
      moreover have "(2::rat) powi (exponent (x * 2) + 1) = 2 * 2 powi (exponent (x * 2))"
        by (rule two_powi_Suc)
      moreover have "exponent (x * 2) - 1 + 1 = exponent (x * 2)" by simp
      ultimately show ?thesis
        unfolding e by (simp only:) linarith
    next
      case ge: False
      then have e: "exponent x = 0"
        using False by (subst exponent.simps) simp
      show ?thesis using False ge unfolding e by simp
    qed
  qed
qed

lemma exponent_unique:
  assumes "0 < x" "2 powi e \<le> x" "x < 2 powi (e + 1)"
  shows "exponent x = e"
proof -
  from exponent_bounds [OF assms(1)]
  have lo: "2 powi (exponent x) \<le> x" and hi: "x < 2 powi (exponent x + 1)" by simp_all
  have "\<not> e + 1 \<le> exponent x"
  proof
    assume "e + 1 \<le> exponent x"
    then have "(2::rat) powi (e + 1) \<le> 2 powi (exponent x)" by (rule two_powi_le)
    with lo assms(3) show False by simp
  qed
  moreover have "\<not> exponent x + 1 \<le> e"
  proof
    assume "exponent x + 1 \<le> e"
    then have "(2::rat) powi (exponent x + 1) \<le> 2 powi e" by (rule two_powi_le)
    with hi assms(2) show False by simp
  qed
  ultimately show ?thesis by simp
qed

lemma exponent_mono:
  assumes "0 < x" "x \<le> y"
  shows "exponent x \<le> exponent y"
proof (rule ccontr)
  assume "\<not> exponent x \<le> exponent y"
  then have "exponent y + 1 \<le> exponent x" by simp
  then have "(2::rat) powi (exponent y + 1) \<le> 2 powi (exponent x)" by (rule two_powi_le)
  also have "\<dots> \<le> x" using exponent_bounds [OF assms(1)] by simp
  also have "\<dots> \<le> y" by (rule assms(2))
  finally show False
    using exponent_bounds [of y] assms by simp
qed

lemma round_half_even_of_int: "round_half_even (of_int n) = n"
  by (simp add: round_half_even_def)

lemma round_half_even_bounds:
  "\<lfloor>y\<rfloor> \<le> round_half_even y" "round_half_even y \<le> \<lfloor>y\<rfloor> + 1"
  by (simp_all add: round_half_even_def Let_def)

lemma round_half_even_mono:
  assumes "x \<le> y"
  shows "round_half_even x \<le> round_half_even y"
proof (cases "\<lfloor>x\<rfloor> = \<lfloor>y\<rfloor>")
  case True
  have "x - of_int \<lfloor>x\<rfloor> \<le> y - of_int \<lfloor>y\<rfloor>"
    using assms True by simp
  then show ?thesis
    using True by (auto simp: round_half_even_def Let_def)
next
  case False
  have "\<lfloor>x\<rfloor> \<le> \<lfloor>y\<rfloor>" using assms by (rule floor_mono)
  with False have "\<lfloor>x\<rfloor> + 1 \<le> \<lfloor>y\<rfloor>" by simp
  with round_half_even_bounds(2) [of x] round_half_even_bounds(1) [of y]
  show ?thesis by linarith
qed

lemma round_half_even_nonneg: "0 \<le> y \<Longrightarrow> 0 \<le> round_half_even y"
  using round_half_even_mono [of 0 y] round_half_even_of_int [of 0] by simp

lemma quantum_pos: "0 < quantum x"
  by (simp add: quantum_def two_powi_pos)

lemma quantum_minus: "quantum (- x) = quantum x"
  by (simp add: quantum_def)

lemma binary64_minus: "binary64 (- x) = - binary64 x"
  by (simp add: binary64_def quantum_minus sgn_minus)

lemma binary64_zero: "binary64 0 = 0"
  by (simp add: binary64_def)

lemma binary64_nonneg: "0 \<le> x \<Longrightarrow> 0 \<le> binary64 x"
  using quantum_pos [of x]
  by (simp add: binary64_def sgn_if round_half_even_nonneg)

text \<open>
  A power of two that is a multiple of the quantum is a binary64 number, and rounding
  does not cross it.
\<close>

lemma binary64_pos:
  "0 < x \<Longrightarrow> binary64 x = of_int (round_half_even (x / quantum x)) * quantum x"
  by (simp add: binary64_def)

lemma binary64_mono_pos:
  assumes x: "0 < x" and xy: "x \<le> y"
  shows "binary64 x \<le> binary64 y"
proof -
  have y: "0 < y" using x xy by simp
  let ?ex = "max (exponent x) (- 1022)" and ?ey = "max (exponent y) (- 1022)"
  have qx: "quantum x = 2 powi (?ex - 52)" and qy: "quantum y = 2 powi (?ey - 52)"
    using x y by (simp_all add: quantum_def)
  have le: "?ex \<le> ?ey"
    using exponent_mono [OF x xy] by simp
  show ?thesis
  proof (cases "?ex = ?ey")
    case True
    then have q: "quantum y = quantum x" by (simp add: qx qy)
    have "x / quantum x \<le> y / quantum x"
      using xy quantum_pos [of x] by (simp add: divide_right_mono)
    then have "round_half_even (x / quantum x) \<le> round_half_even (y / quantum x)"
      by (rule round_half_even_mono)
    then show ?thesis
      using quantum_pos [of x] by (simp add: binary64_pos x y q)
  next
    case False
    with le have lt: "?ex + 1 \<le> ?ey" by simp
    then have ey: "?ey = exponent y" by simp
    have xb: "x < 2 powi (?ex + 1)"
    proof -
      have "x < 2 powi (exponent x + 1)" using exponent_bounds [OF x] by simp
      also have "\<dots> \<le> 2 powi (?ex + 1)" by (rule two_powi_le) simp
      finally show ?thesis .
    qed
    have yb: "2 powi ?ey \<le> y"
      using exponent_bounds [OF y] ey by simp
    have int_x: "2 powi (?ex + 1) / quantum x = of_int (2 ^ 53)"
    proof -
      have "?ex + 1 - (?ex - 52) = 53" by simp
      then show ?thesis unfolding qx two_powi_quot by simp
    qed
    have int_y: "2 powi ?ey / quantum y = of_int (2 ^ 52)"
    proof -
      have "?ey - (?ey - 52) = 52" by simp
      then show ?thesis unfolding qy two_powi_quot by simp
    qed
    have "x / quantum x \<le> 2 powi (?ex + 1) / quantum x"
      using xb quantum_pos [of x] by (simp add: divide_right_mono)
    then have "round_half_even (x / quantum x) \<le> 2 ^ 53"
      using round_half_even_mono [of "x / quantum x" "2 powi (?ex + 1) / quantum x"]
      unfolding int_x round_half_even_of_int by simp
    then have "of_int (round_half_even (x / quantum x)) * quantum x \<le> of_int (2 ^ 53) * quantum x"
      using quantum_pos [of x] by (simp add: mult_right_mono del: of_int_power)
    also have "\<dots> = 2 powi (?ex + 1)"
      using int_x quantum_pos [of x] by (simp add: field_simps)
    also have "\<dots> \<le> 2 powi ?ey" using lt by (rule two_powi_le)
    also have "\<dots> = of_int (2 ^ 52) * quantum y"
      using int_y quantum_pos [of y] by (simp add: field_simps)
    also have "\<dots> \<le> of_int (round_half_even (y / quantum y)) * quantum y"
    proof -
      have "2 powi ?ey / quantum y \<le> y / quantum y"
        using yb quantum_pos [of y] by (simp add: divide_right_mono)
      then have "2 ^ 52 \<le> round_half_even (y / quantum y)"
        using round_half_even_mono [of "2 powi ?ey / quantum y" "y / quantum y"]
        unfolding int_y round_half_even_of_int by simp
      then show ?thesis
        using quantum_pos [of y] by (simp add: mult_right_mono del: of_int_power)
    qed
    finally show ?thesis by (simp add: binary64_pos x y)
  qed
qed

lemma binary64_mono:
  assumes "x \<le> y"
  shows "binary64 x \<le> binary64 y"
proof -
  consider "0 < x" | "x \<le> 0" "0 \<le> y" | "y < 0" by linarith
  then show ?thesis
  proof cases
    case 1
    then show ?thesis using assms by (rule binary64_mono_pos)
  next
    case 2
    have "binary64 x \<le> 0"
      using binary64_nonneg [of "- x"] 2(1) by (simp add: binary64_minus)
    also have "0 \<le> binary64 y" using 2(2) by (rule binary64_nonneg)
    finally show ?thesis .
  next
    case 3
    then have "0 < - y" "- y \<le> - x" using assms by simp_all
    then have "binary64 (- y) \<le> binary64 (- x)" by (rule binary64_mono_pos)
    then show ?thesis by (simp add: binary64_minus)
  qed
qed

text \<open>Whole numbers below \<open>2^53\<close> are binary64 numbers.\<close>

lemma binary64_of_nat_exact:
  assumes pos: "0 < n" and small: "n < 2 ^ 53"
  shows "binary64 (of_int n) = of_int n"
proof -
  let ?x = "of_int n :: rat"
  have x: "0 < ?x" using pos by simp
  have e0: "0 \<le> exponent ?x"
  proof -
    have "exponent (1::rat) = 0" by (subst exponent.simps) simp
    moreover have "exponent 1 \<le> exponent ?x"
      using pos by (intro exponent_mono) simp_all
    ultimately show ?thesis by simp
  qed
  have e52: "exponent ?x \<le> 52"
  proof (rule ccontr)
    assume "\<not> exponent ?x \<le> 52"
    then have "53 \<le> exponent ?x" by simp
    then have "(2::rat) powi 53 \<le> 2 powi (exponent ?x)" by (rule two_powi_le)
    also have "\<dots> \<le> ?x" using exponent_bounds [OF x] by simp
    finally have "(2::rat) ^ 53 \<le> of_int n" by simp
    then have "(of_int (2 ^ 53) :: rat) \<le> of_int n" by simp
    then have "2 ^ 53 \<le> n" by (simp only: of_int_le_iff)
    with small show False by simp
  qed
  define k where "k = nat (52 - exponent ?x)"
  have "exponent ?x - 52 = - int k" using e52 by (simp add: k_def)
  then have q: "quantum ?x = inverse (2 ^ k)"
    using e0 x by (simp add: quantum_def power_int_minus)
  have "?x / quantum ?x = of_int (n * 2 ^ k)"
    by (simp add: q divide_inverse)
  then have r: "round_half_even (?x / quantum ?x) = n * 2 ^ k"
    by (simp only: round_half_even_of_int)
  have "binary64 ?x = of_int (round_half_even (?x / quantum ?x)) * quantum ?x"
    by (rule binary64_pos [OF x])
  also have "\<dots> = of_int (n * 2 ^ k) * quantum ?x"
    by (simp only: r)
  also have "\<dots> = of_int (n * 2 ^ k) * inverse (2 ^ k)"
    by (simp only: q)
  also have "\<dots> = of_int n" by simp
  finally show ?thesis .
qed

lemma binary64_of_int_exact:
  assumes "\<bar>n\<bar> < 2 ^ 53"
  shows "binary64 (of_int n) = of_int n"
proof -
  consider "n = 0" | "0 < n" | "n < 0" by linarith
  then show ?thesis
  proof cases
    case 1
    then show ?thesis by (simp add: binary64_zero)
  next
    case 2
    with assms show ?thesis by (intro binary64_of_nat_exact) simp_all
  next
    case 3
    with assms have "binary64 (of_int (- n)) = of_int (- n)"
      by (intro binary64_of_nat_exact) simp_all
    then show ?thesis by (simp add: binary64_minus)
  qed
qed

text \<open>The largest binary64 number below 1 is \<open>1 - 2^-53\<close>.\<close>

lemma binary64_below_one:
  assumes rep: "binary64 r = r" and r: "r < 1"
  shows "r \<le> 1 - 1 / 2 ^ 53"
proof (cases "1 / 2 \<le> r")
  case False
  then show ?thesis by simp
next
  case True
  then have pos: "0 < r" by simp
  have "exponent r = - 1"
    using pos True r by (intro exponent_unique) simp_all
  then have q: "quantum r = 1 / 2 ^ 53"
    using pos by (simp add: quantum_def power_int_minus_divide)
  define m where "m = round_half_even (r / quantum r)"
  have rm: "r = of_int m / 2 ^ 53"
    using rep pos by (simp add: binary64_pos q m_def)
  with r have "(of_int m :: rat) < of_int (2 ^ 53)" by (simp add: field_simps)
  then have "m < 2 ^ 53" by (simp only: of_int_less_iff)
  then have "m \<le> 2 ^ 53 - 1" by simp
  then have "(of_int m :: rat) \<le> of_int (2 ^ 53 - 1)" by (simp only: of_int_le_iff)
  then show ?thesis
    unfolding rm by (simp add: field_simps)
qed

lemma round_half_even_error: "\<bar>of_int (round_half_even y) - y\<bar> \<le> 1 / 2"
proof -
  have "of_int \<lfloor>y\<rfloor> \<le> y" "y < of_int \<lfloor>y\<rfloor> + 1" by linarith+
  then show ?thesis
    by (auto simp: round_half_even_def Let_def abs_le_iff)
qed

lemma round_half_even_eval:
  assumes "of_int m - 1 / 2 < y" "y < of_int m + 1 / 2"
  shows "round_half_even y = m"
proof (cases "of_int m \<le> y")
  case True
  with assms have f: "\<lfloor>y\<rfloor> = m" by (simp add: floor_eq_iff)
  show ?thesis using assms by (simp add: round_half_even_def Let_def f)
next
  case False
  with assms have f: "\<lfloor>y\<rfloor> = m - 1" by (simp add: floor_eq_iff) 
  show ?thesis using assms False by (simp add: round_half_even_def Let_def f)
qed

text \<open>
  The value of \<open>binary64\<close> at a positive number, from its exponent \<open>e\<close> and the whole
  number \<open>m\<close> nearest to it in units of the quantum.
\<close>

lemma binary64_eval:
  assumes "0 < x" and "2 powi e \<le> x" and "x < 2 powi (e + 1)" and "- 1022 \<le> e"
    and "of_int m - 1 / 2 < x / 2 powi (e - 52)" and "x / 2 powi (e - 52) < of_int m + 1 / 2"
  shows "binary64 x = of_int m * 2 powi (e - 52)"
proof -
  have "exponent x = e" using assms(1-3) by (rule exponent_unique)
  then have q: "quantum x = 2 powi (e - 52)"
    using assms(1,4) by (simp add: quantum_def)
  have "round_half_even (x / 2 powi (e - 52)) = m"
    using assms(5,6) by (rule round_half_even_eval)
  then show ?thesis
    using assms(1) by (simp add: binary64_pos q)
qed

lemma binary64_error: "\<bar>binary64 x - x\<bar> \<le> quantum x / 2"
proof -
  let ?q = "quantum x" and ?y = "\<bar>x\<bar> / quantum x"
  have q: "0 < ?q" by (rule quantum_pos)
  then have y: "?y * ?q = \<bar>x\<bar>" by simp
  have "binary64 x - x = sgn x * ((of_int (round_half_even ?y) - ?y) * ?q)"
    unfolding binary64_def
    by (simp only: left_diff_distrib y right_diff_distrib) (simp add: sgn_mult_abs)
  then have "\<bar>binary64 x - x\<bar> = \<bar>sgn x\<bar> * (\<bar>of_int (round_half_even ?y) - ?y\<bar> * ?q)"
    using q by (simp add: abs_mult)
  also have "\<dots> \<le> 1 * (1 / 2 * ?q)"
    using q round_half_even_error [of ?y]
    by (intro mult_mono mult_right_mono) (simp_all add: abs_sgn_eq)
  finally show ?thesis by simp
qed

lemma quantum_le:
  assumes "\<bar>x\<bar> < 2 powi E" and "1 \<le> E"
  shows "quantum x \<le> 2 powi (E - 53)"
proof -
  have "exponent \<bar>x\<bar> \<le> E - 1"
  proof (cases "x = 0")
    case True
    have "exponent (0::rat) = 0" by (subst exponent.simps) simp
    then show ?thesis using True assms(2) by simp
  next
    case False
    then have pos: "0 < \<bar>x\<bar>" by simp
    show ?thesis
    proof (rule ccontr)
      assume "\<not> exponent \<bar>x\<bar> \<le> E - 1"
      then have "E \<le> exponent \<bar>x\<bar>" by simp
      then have "(2::rat) powi E \<le> 2 powi (exponent \<bar>x\<bar>)" by (rule two_powi_le)
      also have "\<dots> \<le> \<bar>x\<bar>" using exponent_bounds [OF pos] by simp
      finally show False using assms(1) by simp
    qed
  qed
  then have "max (exponent \<bar>x\<bar>) (- 1022) - 52 \<le> E - 53"
    using assms(2) by simp
  then show ?thesis
    unfolding quantum_def by (rule two_powi_le)
qed

lemma round_half_even_tie:
  assumes "y = of_int f + 1 / 2"
  shows "round_half_even y = (if even f then f else f + 1)"
proof -
  have "\<lfloor>y\<rfloor> = f" unfolding assms by (simp add: floor_eq_iff)
  then show ?thesis
    unfolding round_half_even_def Let_def by (simp add: assms)
qed

lemma binary64_eval_tie:
  assumes "0 < x" and "2 powi e \<le> x" and "x < 2 powi (e + 1)" and "- 1022 \<le> e"
    and "x / 2 powi (e - 52) = of_int f + 1 / 2" and "m = (if even f then f else f + 1)"
  shows "binary64 x = of_int m * 2 powi (e - 52)"
proof -
  have "exponent x = e" using assms(1-3) by (rule exponent_unique)
  then have q: "quantum x = 2 powi (e - 52)"
    using assms(1,4) by (simp add: quantum_def)
  have "round_half_even (x / 2 powi (e - 52)) = m"
    unfolding assms(6) using assms(5) by (rule round_half_even_tie)
  then show ?thesis
    using assms(1) by (simp add: binary64_pos q)
qed

lemma binary64_whole: "(numeral n :: int) < 2 ^ 53 \<Longrightarrow> binary64 (numeral n) = numeral n"
  using binary64_of_int_exact [of "numeral n"] by simp

lemma binary64_one: "binary64 1 = 1"
  using binary64_of_int_exact [of 1] by simp

subsection \<open>Values at the numbers of the examples\<close>

lemma binary64_tenth: "binary64 (1 / 10) = 3602879701896397 / 36028797018963968"
proof -
  have "binary64 (1 / 10) = of_int 7205759403792794 * 2 powi (- 4 - 52)"
    by (rule binary64_eval) simp_all
  then show ?thesis by simp
qed

lemma binary64_almost_one: "binary64 (4503599627370495 / 4503599627370496) = 4503599627370495 / 4503599627370496"
proof -
  have "binary64 (4503599627370495 / 4503599627370496) = of_int 9007199254740990 * 2 powi (- 1 - 52)"
    by (rule binary64_eval) simp_all
  then show ?thesis by simp
qed

lemma binary64_almost_one_4: "binary64 (4503599627370495 / 1125899906842624) = 4503599627370495 / 1125899906842624"
proof -
  have "binary64 (4503599627370495 / 1125899906842624) = of_int 9007199254740990 * 2 powi (1 - 52)"
    by (rule binary64_eval) simp_all
  then show ?thesis by simp
qed

lemma binary64_almost_one_20: "binary64 (22517998136852475 / 1125899906842624) = 5629499534213119 / 281474976710656"
proof -
  have "binary64 (22517998136852475 / 1125899906842624) = of_int 5629499534213119 * 2 powi (4 - 52)"
    by (rule binary64_eval) simp_all
  then show ?thesis by simp
qed

lemma binary64_almost_one_conf: "binary64 (28147497671065599 / 281474976710656) = 100"
proof -
  have "binary64 (28147497671065599 / 281474976710656) = of_int 7036874417766400 * 2 powi (6 - 52)"
    by (rule binary64_eval) simp_all
  then show ?thesis by simp
qed

lemma binary64_almost_one_5000: "binary64 (2814749767106559375 / 562949953421312) = 5497558138879999 / 1099511627776"
proof -
  have "binary64 (2814749767106559375 / 562949953421312) = of_int 5497558138879999 * 2 powi (12 - 52)"
    by (rule binary64_eval) simp_all
  then show ?thesis by simp
qed

lemma binary64_near_one_20: "binary64 (45035996273704935 / 2251799813685248) = 5629499534213117 / 281474976710656"
proof -
  have "binary64 (45035996273704935 / 2251799813685248) = of_int 5629499534213117 * 2 powi (4 - 52)"
    by (rule binary64_eval) simp_all
  then show ?thesis by simp
qed

lemma binary64_near_one_conf: "binary64 (28147497671065597 / 281474976710656) = 7036874417766399 / 70368744177664"
proof -
  have "binary64 (28147497671065597 / 281474976710656) = of_int 7036874417766399 * 2 powi (6 - 52)"
    by (rule binary64_eval) simp_all
  then show ?thesis by simp
qed

lemma binary64_last_5000: "binary64 (5629499534213119375 / 1125899906842624) = 5497558138879999 / 1099511627776"
proof -
  have "binary64 (5629499534213119375 / 1125899906842624) = of_int 5497558138879999 * 2 powi (12 - 52)"
    by (rule binary64_eval) simp_all
  then show ?thesis by simp
qed











lemma binary64_179_2: "binary64 (179 / 2) = 179 / 2"
proof -
  have "binary64 (179 / 2) = of_int 6298002603900928 * 2 powi (6 - 52)"
    by (rule binary64_eval) simp_all
  then show ?thesis by simp
qed

lemma binary64_16_27: "binary64 (16 / 27) = 667199944795629 / 1125899906842624"
proof -
  have "binary64 (16 / 27) = of_int 5337599558365032 * 2 powi (- 1 - 52)"
    by (rule binary64_eval) simp_all
  then show ?thesis by simp
qed

lemma binary64_16_27_100: "binary64 (16679998619890725 / 281474976710656) = 4169999654972681 / 70368744177664"
proof -
  have "binary64 (16679998619890725 / 281474976710656) = of_int 8339999309945362 * 2 powi (5 - 52)"
    by (rule binary64_eval_tie [where f = 8339999309945362]) simp_all
  then show ?thesis by simp
qed

lemma binary64_23_160: "binary64 (23 / 160) = 2589569785738035 / 18014398509481984"
proof -
  have "binary64 (23 / 160) = of_int 5179139571476070 * 2 powi (- 3 - 52)"
    by (rule binary64_eval) simp_all
  then show ?thesis by simp
qed

lemma binary64_23_160_100: "binary64 (64739244643450875 / 4503599627370496) = 8092405580431359 / 562949953421312"
proof -
  have "binary64 (64739244643450875 / 4503599627370496) = of_int 8092405580431359 * 2 powi (3 - 52)"
    by (rule binary64_eval) simp_all
  then show ?thesis by simp
qed

section \<open>Properties of the classification loop\<close>

lemma js_index_in_range:
  "i < length xs \<Longrightarrow> js_index xs (int i) = Some (xs ! i)"
  by (simp add: js_index_def)

lemma js_index_out_of_range:
  "int (length xs) \<le> i \<Longrightarrow> js_index xs i = None"
  by (simp add: js_index_def)

lemma js_index_negative:
  "i < 0 \<Longrightarrow> js_index xs i = None"
  by (simp add: js_index_def)

text \<open>
  The loop, started at index \<open>k\<close> on the answers from \<open>k\<close> on, adds to each counter the
  number of remaining questions of its class.
\<close>

lemma count_answers_drop:
  assumes "k \<le> length ds" "length ds \<le> length cas"
  shows "count_answers cas (drop k ds) (int k) (c, w, u) =
     (c + int (length (filter (is_correct ds cas) [k..<length ds])),
      w + int (length (filter (is_incorrect ds cas) [k..<length ds])),
      u + int (length (filter (is_unanswered ds) [k..<length ds])))"
  using assms
proof (induction "length ds - k" arbitrary: k c w u)
  case 0
  then show ?case by simp
next
  case (Suc m)
  then have k: "k < length ds" by simp
  then have d: "drop k ds = ds ! k # drop (Suc k) ds"
    by (simp add: Cons_nth_drop_Suc)
  have up: "[k..<length ds] = k # [Suc k..<length ds]"
    using k by (simp add: upt_conv_Cons)
  have m: "m = length ds - Suc k" using Suc.hyps(2) by simp
  have le: "Suc k \<le> length ds" using k by simp
  have idx: "js_index cas (int k) = Some (cas ! k)"
    using k Suc.prems(2) by (simp add: js_index_in_range)
  have s: "int k + 1 = int (Suc k)" by simp
  show ?case
    unfolding d up count_answers.simps s
    by (simp add: Suc.hyps(1) [OF m le Suc.prems(2)] idx
        is_correct_def is_incorrect_def is_unanswered_def del: of_nat_Suc)
qed

lemma score_counts_classes:
  assumes "length ds \<le> length cas"
  shows "score_counts ds cas =
     (how_many (is_correct ds cas) (length ds),
      how_many (is_incorrect ds cas) (length ds),
      how_many (is_unanswered ds) (length ds))"
  using count_answers_drop [of 0 ds cas 0 0 0] assms
  by (simp add: score_counts_def how_many_def)

lemma classes_partition:
  "length (filter (is_correct ds cas) xs) + length (filter (is_incorrect ds cas) xs)
     + length (filter (is_unanswered ds) xs) = length xs"
  by (induction xs) (auto simp: is_correct_def is_incorrect_def is_unanswered_def)

section \<open>Claims about scoring\<close>

text \<open>
  C1. For an answer key and a detected-answer vector of the same length, which is
  \<open>total_questions\<close>, every question falls in exactly one of the classes unanswered
  (detected value 0), correct (detected value equal to the key's answer at that index) and
  incorrect (otherwise); the three counters of the scoring loop are the sizes of the three
  classes, and they add up to \<open>total_questions\<close>.
\<close>

theorem C1_counts_partition_questions:
  fixes answerKey :: answer_key
  assumes "int (length detectedAnswers) = total_questions answerKey"
    and "length (answers answerKey) = length detectedAnswers"
  shows "(\<forall>i < length detectedAnswers.
            (is_unanswered detectedAnswers i \<and> \<not> is_correct detectedAnswers (answers answerKey) i
               \<and> \<not> is_incorrect detectedAnswers (answers answerKey) i)
          \<or> (\<not> is_unanswered detectedAnswers i \<and> is_correct detectedAnswers (answers answerKey) i
               \<and> \<not> is_incorrect detectedAnswers (answers answerKey) i)
          \<or> (\<not> is_unanswered detectedAnswers i \<and> \<not> is_correct detectedAnswers (answers answerKey) i
               \<and> is_incorrect detectedAnswers (answers answerKey) i))
       \<and> (\<exists>correct incorrect unanswered'.
            score_counts detectedAnswers (answers answerKey) = (correct, incorrect, unanswered')
          \<and> correct = how_many (is_correct detectedAnswers (answers answerKey)) (length detectedAnswers)
          \<and> incorrect = how_many (is_incorrect detectedAnswers (answers answerKey)) (length detectedAnswers)
          \<and> unanswered' = how_many (is_unanswered detectedAnswers) (length detectedAnswers)
          \<and> correct + incorrect + unanswered' = total_questions answerKey)"
proof -
  let ?ds = detectedAnswers and ?cas = "answers answerKey"
  have one: "\<forall>i < length ?ds.
            (is_unanswered ?ds i \<and> \<not> is_correct ?ds ?cas i \<and> \<not> is_incorrect ?ds ?cas i)
          \<or> (\<not> is_unanswered ?ds i \<and> is_correct ?ds ?cas i \<and> \<not> is_incorrect ?ds ?cas i)
          \<or> (\<not> is_unanswered ?ds i \<and> \<not> is_correct ?ds ?cas i \<and> is_incorrect ?ds ?cas i)"
    by (auto simp: is_correct_def is_incorrect_def is_unanswered_def)
  have sc: "score_counts ?ds ?cas =
     (how_many (is_correct ?ds ?cas) (length ?ds),
      how_many (is_incorrect ?ds ?cas) (length ?ds),
      how_many (is_unanswered ?ds) (length ?ds))"
    using assms(2) by (simp add: score_counts_classes)
  have "int (length (filter (is_correct ?ds ?cas) [0..<length ?ds])
           + length (filter (is_incorrect ?ds ?cas) [0..<length ?ds])
           + length (filter (is_unanswered ?ds) [0..<length ?ds])) = int (length ?ds)"
    by (simp only: classes_partition length_upt diff_zero)
  then have total: "how_many (is_correct ?ds ?cas) (length ?ds)
       + how_many (is_incorrect ?ds ?cas) (length ?ds)
       + how_many (is_unanswered ?ds) (length ?ds) = total_questions answerKey"
    using assms(1) by (simp add: how_many_def)
  from one sc total show ?thesis by blast
qed

text \<open>
  The scenario of the specification: key \<open>[1,2,3,4]\<close>, detected \<open>[1,2,0,1]\<close> gives two
  correct, one incorrect and one unanswered question.
\<close>

theorem C1_counts_partition_questions_witness:
  "int (length [1, 2, 0, 1 :: int]) = 4
   \<and> length [1, 2, 3, 4 :: int] = length [1, 2, 0, 1 :: int]
   \<and> score_counts [1, 2, 0, 1] [1, 2, 3, 4] = (2, 1, 1)
   \<and> how_many (is_correct [1, 2, 0, 1] [1, 2, 3, 4]) (length [1, 2, 0, 1 :: int]) = 2
   \<and> how_many (is_incorrect [1, 2, 0, 1] [1, 2, 3, 4]) (length [1, 2, 0, 1 :: int]) = 1
   \<and> how_many (is_unanswered [1, 2, 0, 1]) (length [1, 2, 0, 1 :: int]) = 1"
  using C1_counts_partition_questions [of "[1, 2, 0, 1]"
    "\<lparr>name = ''k'', version = ''A'', subject_breakdown = [], answers = [1, 2, 3, 4],
      total_questions = 4, max_score = 4, key_id = ''id'', key_created_at = ''t''\<rparr>"]
  by (simp add: score_counts_def js_index_def)

section \<open>Properties of the answer-key form\<close>

lemma split_comma_not_empty: "split_comma s \<noteq> []"
  by (induction s) (auto split: list.splits)

lemma split_comma_one: "split_comma (''1,'' @ rest) = ''1'' # split_comma rest"
  by simp

lemma parseInt_one: "parseInt (trim ''1'') = Some 1"
  by code_simp

lemma parse_answers_one: "parse_answers ''1'' = [1]"
  by (simp add: parse_answers_def parseInt_one)

lemma parse_answers_one_more: "parse_answers (''1,'' @ rest) = 1 # parse_answers rest"
  unfolding parse_answers_def split_comma_one by (simp add: parseInt_one)

lemma parse_answers_ones:
  "parse_answers (concat (replicate n ''1,'') @ rest) = replicate n 1 @ parse_answers rest"
proof (induction n)
  case 0
  show ?case by simp
next
  case (Suc n)
  have e: "concat (replicate (Suc n) ''1,'') @ rest = ''1,'' @ (concat (replicate n ''1,'') @ rest)"
    by simp
  show ?case
    by (subst e, subst parse_answers_one_more) (simp add: Suc.IH)
qed

lemma parse_hundred_ones: "parse_answers hundred_ones = replicate 100 1"
proof -
  have "(100::nat) = Suc 99" by simp
  then have "replicate 99 (1::int) @ [1] = replicate 100 1"
    by (simp only: replicate_Suc replicate_append_same)
  then show ?thesis
    unfolding hundred_ones_def parse_answers_ones parse_answers_one by simp
qed

lemma hundred_ones_not_empty: "hundred_ones \<noteq> []"
  by (simp add: hundred_ones_def)

lemma save_hundred_ones:
  "saveAnswerKey (form_with hundred_ones breakdown) None accepting_store =
   save_succeeded (Insert [\<lparr>name = ''Final Exam 2024'', version = ''A'',
         subject_breakdown = breakdown, answers = replicate 100 1,
         total_questions = 100, max_score = 100\<rparr>]) ''Answer key created successfully''"
  by (simp add: saveAnswerKey_def form_with_def parse_hundred_ones hundred_ones_not_empty
      accepting_store_def list_ex_iff)

lemma parse_three: "parse_answers ''1,2,3'' = [1, 2, 3]"
  by code_simp

lemma parse_five: "parse_answers ''5'' = [5]"
  by code_simp

section \<open>Claims about saving an answer key\<close>

text \<open>
  C4. The claim: a breakdown whose ranges overlap is rejected with \<open>RangeOverlap\<close>, one
  that leaves a gap with \<open>RangeGap\<close>. \<open>saveAnswerKey\<close> never looks at the ranges: the two
  breakdowns that the specification wants rejected are inserted as they are.
\<close>

theorem C4_overlap_and_gap_accepted_counterexample:
  "spec_range_overlap (map snd overlapping_breakdown)
   \<and> saveAnswerKey (form_with hundred_ones overlapping_breakdown) None accepting_store =
       save_succeeded (Insert [\<lparr>name = ''Final Exam 2024'', version = ''A'',
         subject_breakdown = overlapping_breakdown, answers = replicate 100 1,
         total_questions = 100, max_score = 100\<rparr>]) ''Answer key created successfully''
   \<and> spec_range_gap (map snd gapped_breakdown) 100
   \<and> saveAnswerKey (form_with hundred_ones gapped_breakdown) None accepting_store =
       save_succeeded (Insert [\<lparr>name = ''Final Exam 2024'', version = ''A'',
         subject_breakdown = gapped_breakdown, answers = replicate 100 1,
         total_questions = 100, max_score = 100\<rparr>]) ''Answer key created successfully''"
proof -
  have "spec_range_overlap (map snd overlapping_breakdown)"
    by (simp add: overlapping_breakdown_def)
  moreover have "spec_range_gap (map snd gapped_breakdown) 100"
    by code_simp
  ultimately show ?thesis
    by (simp only: save_hundred_ones simp_thms)
qed

text \<open>
  C4, amended. Saving an answer key does not validate the breakdown. Whenever name,
  version and answer text are filled in and the text parses to exactly 100 answers, each
  from 1 to 4, the key is sent to the store, by \<open>insert\<close> on create and by \<open>update\<close> on
  edit, with the breakdown exactly as the form holds it, whatever its ranges; when the
  store accepts the call, the save is reported as a success.
\<close>

theorem C4_breakdown_saved_unchecked:
  assumes "form_name formData \<noteq> []" "form_version formData \<noteq> []" "answersText formData \<noteq> []"
    and "length (parse_answers (answersText formData)) = 100"
    and "\<not> list_ex (\<lambda>a. a < 1 \<or> a > 4) (parse_answers (answersText formData))"
  shows "\<exists>keyData.
       request (saveAnswerKey formData editingKey store) =
         Some (case editingKey of
                 None \<Rightarrow> Insert [keyData]
               | Some key \<Rightarrow> Update (key_id key) keyData)
     \<and> subject_breakdown keyData = subjectBreakdown formData
     \<and> (store (case editingKey of
                 None \<Rightarrow> Insert [keyData]
               | Some key \<Rightarrow> Update (key_id key) keyData) = None \<longrightarrow>
          title (shown (saveAnswerKey formData editingKey store)) = ''Success''
          \<and> dialog_closed (saveAnswerKey formData editingKey store))"
  using assms
  by (cases editingKey)
    (auto simp: saveAnswerKey_def Let_def save_succeeded_def save_failed_def
      split: option.splits)

theorem C4_breakdown_saved_unchecked_witness:
  "form_name (form_with hundred_ones overlapping_breakdown) \<noteq> []
   \<and> form_version (form_with hundred_ones overlapping_breakdown) \<noteq> []
   \<and> answersText (form_with hundred_ones overlapping_breakdown) \<noteq> []
   \<and> length (parse_answers (answersText (form_with hundred_ones overlapping_breakdown))) = 100
   \<and> \<not> list_ex (\<lambda>a. a < 1 \<or> a > 4)
         (parse_answers (answersText (form_with hundred_ones overlapping_breakdown)))
   \<and> (\<exists>keyData.
         request (saveAnswerKey (form_with hundred_ones overlapping_breakdown)
                    (Some key_all_threes) accepting_store)
           = Some (Update ''key-1'' keyData)
       \<and> subject_breakdown keyData = overlapping_breakdown)"
proof -
  let ?f = "form_with hundred_ones overlapping_breakdown"
  have 1: "form_name ?f \<noteq> []" and 2: "form_version ?f \<noteq> []" and 3: "answersText ?f \<noteq> []"
    by (simp_all add: form_with_def hundred_ones_not_empty)
  have 4: "length (parse_answers (answersText ?f)) = 100"
    by (simp add: form_with_def parse_hundred_ones)
  have 5: "\<not> list_ex (\<lambda>a. a < 1 \<or> a > 4) (parse_answers (answersText ?f))"
    by (simp add: form_with_def parse_hundred_ones list_ex_iff)
  have k: "key_id key_all_threes = ''key-1''"
    by (simp add: key_all_threes_def)
  have b: "subjectBreakdown ?f = overlapping_breakdown"
    by (simp add: form_with_def)
  from C4_breakdown_saved_unchecked [OF 1 2 3 4 5, of "Some key_all_threes" accepting_store]
  have "\<exists>keyData.
         request (saveAnswerKey ?f (Some key_all_threes) accepting_store)
           = Some (Update ''key-1'' keyData)
       \<and> subject_breakdown keyData = overlapping_breakdown"
    by (auto simp: k b)
  with 1 2 3 4 5 show ?thesis by blast
qed

text \<open>
  C5. When the parsed answers are not exactly 100, or one of them lies outside 1 to 4,
  \<open>saveAnswerKey\<close> shows a validation error and sends neither an insert nor an update to
  the \<open>answer_keys\<close> store.
\<close>

theorem C5_invalid_answers_persist_nothing:
  assumes "length (parse_answers (answersText formData)) \<noteq> 100
     \<or> list_ex (\<lambda>a. a < 1 \<or> a > 4) (parse_answers (answersText formData))"
  shows "request (saveAnswerKey formData editingKey store) = None
     \<and> title (shown (saveAnswerKey formData editingKey store)) = ''Validation Error''
     \<and> \<not> dialog_closed (saveAnswerKey formData editingKey store)"
  using assms
  by (auto simp: saveAnswerKey_def Let_def validation_error_def)

theorem C5_invalid_answers_persist_nothing_witness:
  "length (parse_answers (answersText (form_with ''1,2,3'' default_breakdown))) \<noteq> 100
   \<and> request (saveAnswerKey (form_with ''1,2,3'' default_breakdown) None accepting_store) = None
   \<and> list_ex (\<lambda>a. a < 1 \<or> a > 4)
       (parse_answers (answersText
          (form_with (concat (replicate 99 ''1,'') @ ''5'') default_breakdown)))
   \<and> request (saveAnswerKey (form_with (concat (replicate 99 ''1,'') @ ''5'') default_breakdown)
        (Some key_all_threes) accepting_store) = None"
proof -
  let ?short = "form_with ''1,2,3'' default_breakdown"
  let ?five = "form_with (concat (replicate 99 ''1,'') @ ''5'') default_breakdown"
  have a: "length (parse_answers (answersText ?short)) \<noteq> 100"
    by (simp add: form_with_def parse_three)
  have b: "list_ex (\<lambda>a. a < 1 \<or> a > 4) (parse_answers (answersText ?five))"
    by (simp add: form_with_def parse_answers_ones parse_five)
  from a b
    C5_invalid_answers_persist_nothing [of ?short None accepting_store]
    C5_invalid_answers_persist_nothing [of ?five "Some key_all_threes" accepting_store]
  show ?thesis by blast
qed

section \<open>Claims about the CSV export\<close>

text \<open>
  C9. For a sheet with a result, every numeric column whose value is 0 (total score,
  percentage, the five subject scores, correct, incorrect, unanswered, confidence) is
  exported as the empty string, written \<open>""\<close> in the file; a sheet without result has
  the empty string in each of these columns, so the two cannot be told apart there.
\<close>

theorem C9_zero_exported_as_empty:
  assumes "result sheet = Some r"
  shows "(total_score r = 0 \<longrightarrow> csv_row d sheet ! 5 = Text [])
     \<and> (percentage r = 0 \<longrightarrow> csv_row d sheet ! 6 = Text [])
     \<and> (map_of (subject_scores r) ''english'' = Some 0 \<longrightarrow> csv_row d sheet ! 7 = Text [])
     \<and> (map_of (subject_scores r) ''math'' = Some 0 \<longrightarrow> csv_row d sheet ! 8 = Text [])
     \<and> (map_of (subject_scores r) ''science'' = Some 0 \<longrightarrow> csv_row d sheet ! 9 = Text [])
     \<and> (map_of (subject_scores r) ''social'' = Some 0 \<longrightarrow> csv_row d sheet ! 10 = Text [])
     \<and> (map_of (subject_scores r) ''hindi'' = Some 0 \<longrightarrow> csv_row d sheet ! 11 = Text [])
     \<and> (correct_answers r = 0 \<longrightarrow> csv_row d sheet ! 12 = Text [])
     \<and> (incorrect_answers r = 0 \<longrightarrow> csv_row d sheet ! 13 = Text [])
     \<and> (unanswered r = 0 \<longrightarrow> csv_row d sheet ! 14 = Text [])
     \<and> (confidence_score r = 0 \<longrightarrow> csv_row d sheet ! 15 = Text [])
     \<and> map (\<lambda>i. csv_row d (sheet\<lparr>result := None\<rparr>) ! i) [5..<16] = replicate 11 (Text [])
     \<and> quoted number_text (Text []) = [CHR 0x22, CHR 0x22]"
proof -
  have upt: "[5..<16] = [5, 6, 7, 8, 9, 10, 11, 12, 13, 14, 15 :: nat]"
    by (simp add: upt_rec)
  have rep: "replicate 11 (Text []) = [Text [], Text [], Text [], Text [], Text [], Text [],
      Text [], Text [], Text [], Text [], Text []]"
    by (simp add: numeral_eq_Suc)
  show ?thesis
    unfolding upt rep
    using assms
    by (simp add: csv_row_def number_or_empty_def subject_score_def quoted_def)
qed

text \<open>
  A sheet whose result has no correct answer is exported, in the columns of the total
  score and the percentage, exactly as the sheet without result.
\<close>

theorem C9_zero_exported_as_empty_witness:
  "result sheet_with_zero_result = Some zero_result
   \<and> total_score zero_result = 0 \<and> percentage zero_result = 0
   \<and> map_of (subject_scores zero_result) ''english'' = Some 0
   \<and> csv_row (take 10) sheet_with_zero_result ! 5 = Text []
   \<and> csv_row (take 10) sheet_with_zero_result ! 6 = Text []
   \<and> csv_row (take 10) sheet_with_zero_result ! 7 = Text []
   \<and> csv_row (take 10) sheet_without_result ! 5 = Text []
   \<and> csv_row (take 10) sheet_without_result ! 6 = Text []
   \<and> csv_row (take 10) sheet_without_result ! 7 = Text []"
proof -
  have r: "result sheet_with_zero_result = Some zero_result"
    by (simp add: sheet_with_zero_result_def)
  have z: "total_score zero_result = 0" "percentage zero_result = 0"
    "map_of (subject_scores zero_result) ''english'' = Some 0"
    by (simp_all add: zero_result_def)
  have n: "sheet_with_zero_result\<lparr>result := None\<rparr> = sheet_without_result"
    by (simp add: sheet_with_zero_result_def sheet_without_result_def)
  have none: "csv_row (take 10) sheet_without_result ! 5 = Text []"
    "csv_row (take 10) sheet_without_result ! 6 = Text []"
    "csv_row (take 10) sheet_without_result ! 7 = Text []"
    by (simp_all add: csv_row_def sheet_without_result_def number_or_empty_def subject_score_def)
  from C9_zero_exported_as_empty [OF r, of "take 10"] r z none
  show ?thesis by simp
qed

section \<open>Properties of the processing stub\<close>

lemma floor_add_half:
  fixes a :: rat
  shows "\<lfloor>a + 1 / 2\<rfloor> = (if a - of_int \<lfloor>a\<rfloor> < 1 / 2 then \<lfloor>a\<rfloor> else \<lfloor>a\<rfloor> + 1)"
proof (cases "a - of_int \<lfloor>a\<rfloor> < 1 / 2")
  case True
  have le: "of_int \<lfloor>a\<rfloor> \<le> a" by (rule of_int_floor_le)
  have "of_int \<lfloor>a\<rfloor> \<le> a + 1 / 2" "a + 1 / 2 < of_int \<lfloor>a\<rfloor> + 1"
    using True le by linarith+
  then have "\<lfloor>a + 1 / 2\<rfloor> = \<lfloor>a\<rfloor>"
    by (simp only: floor_eq_iff)
  with True show ?thesis by simp
next
  case False
  have lt: "a < of_int \<lfloor>a\<rfloor> + 1" by linarith
  have "of_int (\<lfloor>a\<rfloor> + 1) \<le> a + 1 / 2" "a + 1 / 2 < of_int (\<lfloor>a\<rfloor> + 1) + 1"
    using False lt by simp_all
  then have "\<lfloor>a + 1 / 2\<rfloor> = \<lfloor>a\<rfloor> + 1"
    by (simp only: floor_eq_iff)
  with False show ?thesis by simp
qed

lemma toFixed2_round: "toFixed2 x = round_half_away_2dp x"
  unfolding toFixed2_def round_half_away_2dp_def Let_def floor_add_half
  by (cases "x < 0"; cases "x = 0") (simp_all add: sgn_if)

lemma simulate_returns:
  "total_questions answerKey \<noteq> 0 \<Longrightarrow>
     \<exists>row. simulateOMRProcessing sheetId (answerKey # others) rnd = Some row"
  by (simp add: simulateOMRProcessing_def Let_def case_prod_beta)

lemma simulate_no_key: "simulateOMRProcessing sheetId [] rnd = None"
  by (simp add: simulateOMRProcessing_def)

lemma simulate_fields:
  assumes "simulateOMRProcessing sheetId (answerKey # others) rnd = Some row"
  shows "total_questions answerKey \<noteq> 0"
    and "detected_answers row = fst (generate_answers rnd 100 0)"
    and "total_score row = fst (score_counts (detected_answers row) (answers answerKey))"
    and "correct_answers row = total_score row"
    and "subject_scores row =
           subject_scores_of (detected_answers row) (answers answerKey) (subject_breakdown answerKey)"
    and "result_max_score row = max_score answerKey"
    and "percentage row =
           binary64 (toFixed2 (percentage_of (total_score row) (total_questions answerKey)))"
    and "confidence_score row = js_add (js_mul (rnd (snd (generate_answers rnd 100 0))) 20) 80"
    and "processing_time row =
           \<lfloor>js_mul (rnd (snd (generate_answers rnd 100 0) + 1)) 5000\<rfloor> + 1000"
  using assms
  by (auto simp: simulateOMRProcessing_def Let_def split: prod.splits if_splits)

lemma generate_answers_position: "k \<le> snd (generate_answers rnd m k)"
proof (induction m arbitrary: k)
  case 0
  show ?case by simp
next
  case (Suc m)
  have "k + 2 \<le> snd (generate_answers rnd m (k + 2))"
    and "k + 1 \<le> snd (generate_answers rnd m (k + 1))"
    by (rule Suc.IH)+
  then show ?case by (simp add: Let_def case_prod_beta)
qed

lemma generate_answers_length: "length (fst (generate_answers rnd m k)) = m"
  by (induction m arbitrary: k) (simp_all add: Let_def case_prod_beta)

lemma generate_answers_prefix:
  assumes "\<And>n. k \<le> n \<Longrightarrow> n < snd (generate_answers rnd m k) \<Longrightarrow> rnd' n = rnd n"
  shows "generate_answers rnd' m k = generate_answers rnd m k"
  using assms
proof (induction m arbitrary: k)
  case 0
  show ?case by simp
next
  case (Suc m)
  show ?case
  proof (cases "binary64 (1 / 10) < rnd k")
    case True
    have p2: "k + 2 \<le> snd (generate_answers rnd m (k + 2))"
      by (rule generate_answers_position)
    have pos: "snd (generate_answers rnd (Suc m) k) = snd (generate_answers rnd m (k + 2))"
      using True by (simp add: Let_def case_prod_beta)
    have a: "rnd' k = rnd k" and b: "rnd' (k + 1) = rnd (k + 1)"
      using Suc.prems [of k] Suc.prems [of "k + 1"] p2 pos by simp_all
    have rest: "generate_answers rnd' m (k + 2) = generate_answers rnd m (k + 2)"
      using Suc.prems pos by (intro Suc.IH) simp
    show ?thesis using True a b rest by (simp add: Let_def case_prod_beta)
  next
    case False
    have p1: "k + 1 \<le> snd (generate_answers rnd m (k + 1))"
      by (rule generate_answers_position)
    have pos: "snd (generate_answers rnd (Suc m) k) = snd (generate_answers rnd m (k + 1))"
      using False by (simp add: Let_def case_prod_beta)
    have a: "rnd' k = rnd k"
      using Suc.prems [of k] p1 pos by simp
    have rest: "generate_answers rnd' m (k + 1) = generate_answers rnd m (k + 1)"
      using Suc.prems pos by (intro Suc.IH) simp
    show ?thesis using False a rest by (simp add: Let_def case_prod_beta)
  qed
qed

text \<open>
  Whatever the key, the three counters of a written row add up to the 100 detected
  answers.
\<close>

lemma count_answers_total:
  "count_answers cas ds i (c, w, u) = (c', w', u') \<Longrightarrow>
     c' + w' + u' = c + w + u + int (length ds)"
proof (induction ds arbitrary: i c w u)
  case Nil
  then show ?case by simp
next
  case (Cons d ds)
  show ?case
  proof (cases "d = 0")
    case True
    with Cons.prems have "count_answers cas ds (i + 1) (c, w, u + 1) = (c', w', u')" by simp
    from Cons.IH [OF this] show ?thesis by simp
  next
    case False
    show ?thesis
    proof (cases "Some d = js_index cas i")
      case True
      with False Cons.prems have "count_answers cas ds (i + 1) (c + 1, w, u) = (c', w', u')"
        by simp
      from Cons.IH [OF this] show ?thesis by simp
    next
      case no: False
      with False Cons.prems have "count_answers cas ds (i + 1) (c, w + 1, u) = (c', w', u')"
        by simp
      from Cons.IH [OF this] show ?thesis by simp
    qed
  qed
qed

lemma simulate_counts_total:
  assumes "simulateOMRProcessing sheetId answerKeys rnd = Some row"
  shows "length (detected_answers row) = 100"
    and "correct_answers row + incorrect_answers row + unanswered row = 100"
proof -
  from assms obtain answerKey others where keys: "answerKeys = answerKey # others"
    by (cases answerKeys) (simp_all add: simulate_no_key)
  have d: "detected_answers row = fst (generate_answers rnd 100 0)"
    using simulate_fields(2) [OF assms [unfolded keys]] .
  then show len: "length (detected_answers row) = 100"
    by (simp add: generate_answers_length)
  have "score_counts (detected_answers row) (answers answerKey)
      = (correct_answers row, incorrect_answers row, unanswered row)"
    using assms unfolding keys
    by (auto simp: simulateOMRProcessing_def Let_def case_prod_beta prod_eq_iff
        split: if_splits)
  from count_answers_total [OF this [unfolded score_counts_def]] len
  show "correct_answers row + incorrect_answers row + unanswered row = 100"
    by simp
qed

lemma count_answers_grows:
  "count_answers cas ds i (c, w, u) = (c', w', u') \<Longrightarrow> c \<le> c' \<and> w \<le> w' \<and> u \<le> u'"
proof (induction ds arbitrary: i c w u)
  case Nil
  then show ?case by simp
next
  case (Cons d ds)
  show ?case
  proof (cases "d = 0")
    case True
    with Cons.prems have "count_answers cas ds (i + 1) (c, w, u + 1) = (c', w', u')" by simp
    from Cons.IH [OF this] show ?thesis by simp
  next
    case False
    show ?thesis
    proof (cases "Some d = js_index cas i")
      case True
      with False Cons.prems have "count_answers cas ds (i + 1) (c + 1, w, u) = (c', w', u')"
        by simp
      from Cons.IH [OF this] show ?thesis by simp
    next
      case no: False
      with False Cons.prems have "count_answers cas ds (i + 1) (c, w + 1, u) = (c', w', u')"
        by simp
      from Cons.IH [OF this] show ?thesis by simp
    qed
  qed
qed

lemma simulate_total_score_range:
  assumes "simulateOMRProcessing sheetId answerKeys rnd = Some row"
  shows "0 \<le> total_score row" and "total_score row \<le> 100"
proof -
  from assms obtain answerKey others where keys: "answerKeys = answerKey # others"
    by (cases answerKeys) (simp_all add: simulate_no_key)
  have sc: "score_counts (detected_answers row) (answers answerKey)
      = (correct_answers row, incorrect_answers row, unanswered row)"
    using assms unfolding keys
    by (auto simp: simulateOMRProcessing_def Let_def case_prod_beta prod_eq_iff
        split: if_splits)
  from count_answers_grows [OF sc [unfolded score_counts_def]]
  have nn: "0 \<le> correct_answers row" "0 \<le> incorrect_answers row" "0 \<le> unanswered row"
    by simp_all
  have t: "total_score row = correct_answers row"
    using simulate_fields(4) [OF assms [unfolded keys]] by simp
  show "0 \<le> total_score row" using nn t by simp
  show "total_score row \<le> 100"
    using simulate_counts_total(2) [OF assms] nn t by simp
qed

subsection \<open>The percentage under a key of 100 questions\<close>

lemma toFixed2_near:
  assumes "0 \<le> k" and "\<bar>x - of_int k\<bar> < 1 / 200"
  shows "toFixed2 x = of_int k"
proof (cases "k = 0")
  case True
  with assms(2) have "\<bar>x\<bar> * 100 + 1 / 2 < 1" "0 \<le> \<bar>x\<bar> * 100 + 1 / 2" by simp_all
  then have "\<lfloor>\<bar>x\<bar> * 100 + 1 / 2\<rfloor> = 0" by (simp add: floor_eq_iff)
  then show ?thesis using True by (simp add: toFixed2_round round_half_away_2dp_def)
next
  case False
  with assms(1) have k: "1 \<le> k" by simp
  then have "(1::rat) \<le> of_int k" by simp
  with assms(2) have pos: "0 < x" by linarith
  have "of_int (k * 100) \<le> x * 100 + 1 / 2" "x * 100 + 1 / 2 < of_int (k * 100) + 1"
    using assms(2) by (simp, linarith, simp, linarith)
  then have "\<lfloor>x * 100 + 1 / 2\<rfloor> = k * 100" by (rule floor_unique)
  then show ?thesis
    using pos by (simp add: toFixed2_round round_half_away_2dp_def)
qed

lemma percentage_whole:
  assumes "0 \<le> c" "c \<le> 100"
  shows "binary64 (toFixed2 (percentage_of c 100)) = of_int c"
proof -
  define x1 :: rat where "x1 = of_int c / 100"
  define d1 where "d1 = binary64 x1"
  define x2 where "x2 = d1 * 100"
  have x1: "0 \<le> x1" "x1 \<le> 1" using assms by (simp_all add: x1_def)
  have "\<bar>x1\<bar> < 2 powi 1" using x1 by simp
  then have "quantum x1 \<le> 2 powi (1 - 53)" by (rule quantum_le) simp
  then have e1: "\<bar>d1 - x1\<bar> \<le> 1 / 2 ^ 53"
    using binary64_error [of x1] by (simp add: d1_def power_int_minus_divide)
  have d1: "0 \<le> d1" "d1 \<le> 1"
    using binary64_nonneg [OF x1(1)] binary64_mono [OF x1(2)]
    by (simp_all add: d1_def binary64_one)
  have "\<bar>x2\<bar> < 2 powi 7" using d1 by (simp add: x2_def)
  then have "quantum x2 \<le> 2 powi (7 - 53)" by (rule quantum_le) simp
  then have e2: "\<bar>binary64 x2 - x2\<bar> \<le> 1 / 2 ^ 47"
    using binary64_error [of x2] by (simp add: power_int_minus_divide)
  have "x2 - of_int c = (d1 - x1) * 100"
    by (simp add: x2_def x1_def algebra_simps)
  then have "\<bar>x2 - of_int c\<bar> = \<bar>d1 - x1\<bar> * 100"
    by (simp only: abs_mult abs_numeral)
  moreover from e1 have "\<bar>d1 - x1\<bar> * 100 \<le> 1 / 2 ^ 53 * 100"
    by (rule mult_right_mono) simp
  ultimately have e3: "\<bar>x2 - of_int c\<bar> \<le> 100 / 2 ^ 53"
    by simp
  have "\<bar>binary64 x2 - of_int c\<bar> \<le> \<bar>binary64 x2 - x2\<bar> + \<bar>x2 - of_int c\<bar>"
    by simp
  also have "\<dots> \<le> 1 / 2 ^ 47 + 100 / 2 ^ 53" using e2 e3 by simp
  also have "\<dots> < 1 / 200" by simp
  finally have "toFixed2 (binary64 x2) = of_int c"
    using assms(1) by (intro toFixed2_near) simp_all
  moreover have "percentage_of c 100 = binary64 x2"
    by (simp add: percentage_of_def js_mul_def js_div_def x2_def d1_def x1_def)
  moreover have "binary64 (of_int c) = of_int c"
    using assms by (intro binary64_of_int_exact) simp
  ultimately show ?thesis by simp
qed

text \<open>
  Rounding the binary64 product is not rounding the exact quotient: 23 correct answers of
  160 questions are 14.375 per cent, the product is just below, and \<open>toFixed\<close> prints 14.37.
\<close>

lemma percentage_23_of_160:
  "toFixed2 (percentage_of 23 160) = 1437 / 100
   \<and> round_half_away_2dp (23 / 160 * 100) = 1438 / 100"
proof -
  have p: "percentage_of 23 160 = 8092405580431359 / 562949953421312"
    by (simp add: percentage_of_def js_mul_def js_div_def binary64_23_160 binary64_23_160_100)
  have "\<lfloor>(8092405580431359::rat) / 562949953421312 * 100 + 1 / 2\<rfloor> = 1437"
    by (rule floor_unique) simp_all
  then have "toFixed2 (percentage_of 23 160) = 1437 / 100"
    unfolding p by (simp add: toFixed2_round round_half_away_2dp_def)
  moreover have "\<lfloor>(23::rat) / 160 * 100 * 100 + 1 / 2\<rfloor> = 1438"
    by (rule floor_unique) simp_all
  then have "round_half_away_2dp (23 / 160 * 100) = 1438 / 100"
    by (simp add: round_half_away_2dp_def)
  ultimately show ?thesis by simp
qed

subsection \<open>Constant draws\<close>

lemma generate_answers_constant:
  assumes "\<forall>n. rnd n = r" and "binary64 (1 / 10) < r"
  shows "generate_answers rnd n k = (replicate n (\<lfloor>js_mul r 4\<rfloor> + 1), k + 2 * n)"
  using assms by (induction n arbitrary: k) simp_all

lemma simulate_constant:
  assumes "\<forall>n. rnd n = r" and "binary64 (1 / 10) < r" and "total_questions answerKey \<noteq> 0"
  shows "simulateOMRProcessing sheetId (answerKey # others) rnd =
     Some \<lparr>sheet_id = sheetId,
        answer_key_id = key_id answerKey,
        detected_answers = replicate 100 (\<lfloor>js_mul r 4\<rfloor> + 1),
        subject_scores =
          subject_scores_of (replicate 100 (\<lfloor>js_mul r 4\<rfloor> + 1)) (answers answerKey)
            (subject_breakdown answerKey),
        total_score =
          fst (score_counts (replicate 100 (\<lfloor>js_mul r 4\<rfloor> + 1)) (answers answerKey)),
        result_max_score = max_score answerKey,
        percentage = binary64 (toFixed2 (percentage_of
          (fst (score_counts (replicate 100 (\<lfloor>js_mul r 4\<rfloor> + 1)) (answers answerKey)))
          (total_questions answerKey))),
        correct_answers =
          fst (score_counts (replicate 100 (\<lfloor>js_mul r 4\<rfloor> + 1)) (answers answerKey)),
        incorrect_answers =
          fst (snd (score_counts (replicate 100 (\<lfloor>js_mul r 4\<rfloor> + 1)) (answers answerKey))),
        unanswered =
          snd (snd (score_counts (replicate 100 (\<lfloor>js_mul r 4\<rfloor> + 1)) (answers answerKey))),
        confidence_score = js_add (js_mul r 20) 80,
        processing_time = \<lfloor>js_mul r 5000\<rfloor> + 1000\<rparr>"
  using assms
  by (simp add: simulateOMRProcessing_def generate_answers_constant Let_def case_prod_beta)

lemma always_half_draws:
  "\<forall>n. always_half n = 1 / 2" "binary64 (1 / 10) < 1 / 2"
  "\<lfloor>js_mul (1 / 2) 4\<rfloor> + 1 = 3" "js_add (js_mul (1 / 2) 20) 80 = 90"
  "\<lfloor>js_mul (1 / 2) 5000\<rfloor> + 1000 = 3500"
  by (simp_all add: always_half_def binary64_tenth js_mul_def js_add_def binary64_whole)

lemma always_almost_one_draws:
  "\<forall>n. always_almost_one n = 1 - 1 / 2 ^ 52" "binary64 (1 / 10) < 1 - 1 / 2 ^ 52"
  "\<lfloor>js_mul (1 - 1 / 2 ^ 52) 4\<rfloor> + 1 = 4" "js_add (js_mul (1 - 1 / 2 ^ 52) 20) 80 = 100"
  "\<lfloor>js_mul (1 - 1 / 2 ^ 52) 5000\<rfloor> + 1000 = 5999"
proof -
  show "\<forall>n. always_almost_one n = 1 - 1 / 2 ^ 52" by (simp add: always_almost_one_def)
  show "binary64 (1 / 10) < 1 - 1 / 2 ^ 52" by (simp add: binary64_tenth)
  have "\<lfloor>(4503599627370495::rat) / 1125899906842624\<rfloor> = 3"
    by (rule floor_unique) simp_all
  then show "\<lfloor>js_mul (1 - 1 / 2 ^ 52) 4\<rfloor> + 1 = 4"
    by (simp add: js_mul_def binary64_almost_one_4)
  show "js_add (js_mul (1 - 1 / 2 ^ 52) 20) 80 = 100"
    by (simp add: js_mul_def js_add_def binary64_almost_one_20 binary64_almost_one_conf)
  have "\<lfloor>(5497558138879999::rat) / 1099511627776\<rfloor> = 4999"
    by (rule floor_unique) simp_all
  then show "\<lfloor>js_mul (1 - 1 / 2 ^ 52) 5000\<rfloor> + 1000 = 5999"
    by (simp add: js_mul_def binary64_almost_one_5000)
qed

lemma counts_of_samples:
  "score_counts (replicate 100 3) (replicate 100 3) = (100, 0, 0)"
  "score_counts (replicate 100 3) (replicate 100 1) = (0, 100, 0)"
  "score_counts (replicate 100 4) (replicate 100 3) = (0, 100, 0)"
  "subject_scores_of (replicate 100 3) (replicate 100 3) default_breakdown =
     [(''english'', 20), (''math'', 20), (''science'', 20), (''social'', 20), (''hindi'', 20)]"
  "subject_scores_of (replicate 100 3) (replicate 100 1)
     (butlast default_breakdown @ [(''hindi'', \<lparr>range_start = 81, range_end = 110\<rparr>)]) =
     [(''english'', 0), (''math'', 0), (''science'', 0), (''social'', 0), (''hindi'', 10)]"
  by code_simp+

lemma always_half_row:
  assumes "total_questions answerKey \<noteq> 0"
  shows "simulateOMRProcessing sheetId (answerKey # others) always_half =
     Some \<lparr>sheet_id = sheetId,
        answer_key_id = key_id answerKey,
        detected_answers = replicate 100 3,
        subject_scores =
          subject_scores_of (replicate 100 3) (answers answerKey) (subject_breakdown answerKey),
        total_score = fst (score_counts (replicate 100 3) (answers answerKey)),
        result_max_score = max_score answerKey,
        percentage = binary64 (toFixed2 (percentage_of
          (fst (score_counts (replicate 100 3) (answers answerKey)))
          (total_questions answerKey))),
        correct_answers = fst (score_counts (replicate 100 3) (answers answerKey)),
        incorrect_answers = fst (snd (score_counts (replicate 100 3) (answers answerKey))),
        unanswered = snd (snd (score_counts (replicate 100 3) (answers answerKey))),
        confidence_score = 90,
        processing_time = 3500\<rparr>"
  using simulate_constant [OF always_half_draws(1,2) assms, of sheetId others]
  unfolding always_half_draws(3-5) .

lemma round_half_away_2dp_whole:
  assumes "0 \<le> c"
  shows "round_half_away_2dp (of_int c) = of_int c"
  using toFixed2_near [OF assms, of "of_int c"] by (simp add: toFixed2_round)

lemma sample_percentages:
  "binary64 (toFixed2 (percentage_of 100 100)) = 100"
  "binary64 (toFixed2 (percentage_of 0 100)) = 0"
  using percentage_whole [of 100] percentage_whole [of 0] by simp_all

section \<open>Claims about the persisted percentage\<close>

text \<open>
  C2. The claim divides by the answer key's \<open>max_score\<close>; the code divides by its
  \<open>total_questions\<close>. With 100 questions, all answered as the key says, and a
  \<open>max_score\<close> of 200, the row carries 100 where the claim's formula gives 50.
\<close>

theorem C2_percentage_over_max_score_counterexample:
  "map_option (\<lambda>row. (total_score row, result_max_score row, percentage row,
                       spec_percentage (total_score row) (result_max_score row)))
     (simulateOMRProcessing ''sheet-1'' [key_max_200] always_half) = Some (100, 200, 100, 50)"
proof -
  have "spec_percentage 100 200 = 50"
    using round_half_away_2dp_whole [of 50] by (simp add: spec_percentage_def)
  then show ?thesis
    by (simp add: always_half_row key_max_200_def key_all_threes_def counts_of_samples
        sample_percentages)
qed

text \<open>
  C2, amended. For every answer key with a non-zero \<open>total_questions\<close> a row is written,
  and its percentage is the binary64 number that \<open>toFixed(2)\<close> prints for the binary64
  product \<open>(totalScore / total_questions) * 100\<close>: the product rounded to two decimal
  places, half away from zero. When \<open>total_questions\<close> is 100, as for every key saved
  through the form, this is the exact quotient by \<open>total_questions\<close> rounded to two
  decimal places, and it is the claim's value when \<open>max_score\<close> is 100 too. (For other
  numbers of questions the product can lie just below a tie of the exact quotient, see
  \<open>percentage_23_of_160\<close>.)
\<close>

theorem C2_percentage_over_total_questions:
  fixes answerKey :: answer_key
  assumes "total_questions answerKey \<noteq> 0"
  shows "\<exists>row. simulateOMRProcessing sheetId (answerKey # others) rnd = Some row
     \<and> percentage row =
         binary64 (round_half_away_2dp
           (js_mul (js_div (of_int (total_score row)) (of_int (total_questions answerKey)))
              100))
     \<and> (total_questions answerKey = 100 \<longrightarrow>
          percentage row =
            round_half_away_2dp
              (of_int (total_score row) / of_int (total_questions answerKey) * 100)
          \<and> (max_score answerKey = 100 \<longrightarrow>
               percentage row = spec_percentage (total_score row) (result_max_score row)))"
proof -
  from assms obtain row
    where row: "simulateOMRProcessing sheetId (answerKey # others) rnd = Some row"
    using simulate_returns by blast
  have p: "percentage row =
      binary64 (toFixed2 (percentage_of (total_score row) (total_questions answerKey)))"
    using simulate_fields(7) [OF row] .
  have m: "result_max_score row = max_score answerKey"
    using simulate_fields(6) [OF row] .
  have r: "0 \<le> total_score row" "total_score row \<le> 100"
    using simulate_total_score_range [OF row] .
  have w: "percentage row = round_half_away_2dp (of_int (total_score row))"
    if "total_questions answerKey = 100"
    using p that percentage_whole [OF r] round_half_away_2dp_whole [OF r(1)] by simp
  have "percentage row =
      binary64 (round_half_away_2dp
        (js_mul (js_div (of_int (total_score row)) (of_int (total_questions answerKey))) 100))"
    using p by (simp add: toFixed2_round percentage_of_def)
  moreover have "percentage row =
      round_half_away_2dp (of_int (total_score row) / of_int (total_questions answerKey) * 100)"
    if "total_questions answerKey = 100"
    using w [OF that] that by simp
  moreover have "percentage row = spec_percentage (total_score row) (result_max_score row)"
    if "total_questions answerKey = 100" "max_score answerKey = 100"
    using w [OF that(1)] that m by (simp add: spec_percentage_def)
  ultimately show ?thesis using row by blast
qed

theorem C2_percentage_over_total_questions_witness:
  "total_questions key_all_threes \<noteq> 0
   \<and> total_questions key_all_threes = 100 \<and> max_score key_all_threes = 100
   \<and> map_option (\<lambda>row. (total_score row, result_max_score row, percentage row))
        (simulateOMRProcessing ''sheet-1'' [key_all_threes] always_half) = Some (100, 100, 100)
   \<and> binary64 (round_half_away_2dp (js_mul (js_div (of_int 100) (of_int 100)) 100)) = 100
   \<and> round_half_away_2dp (of_int 100 / of_int 100 * 100) = 100
   \<and> spec_percentage 100 100 = 100"
proof -
  have k: "total_questions key_all_threes \<noteq> 0"
    "total_questions key_all_threes = 100" "max_score key_all_threes = 100"
    by (simp_all add: key_all_threes_def)
  have ev: "map_option (\<lambda>row. (total_score row, result_max_score row, percentage row))
        (simulateOMRProcessing ''sheet-1'' [key_all_threes] always_half) = Some (100, 100, 100)"
    by (simp add: always_half_row key_all_threes_def counts_of_samples sample_percentages)
  from C2_percentage_over_total_questions [OF k(1), of "''sheet-1''" "[]" always_half] ev k
  show ?thesis by auto
qed

section \<open>Properties of the subject subtotals\<close>

text \<open>The loop from a non-negative index counts the matching reads up to \<open>end'\<close>.\<close>

lemma count_range_upt:
  "count_range ds cas (int a) e c =
     c + int (length (filter (\<lambda>j. js_index ds (int j) = js_index cas (int j)) [a..<nat (e + 1)]))"
proof (induction "nat (e + 1) - a" arbitrary: a c)
  case 0
  then have "\<not> int a \<le> e" by linarith
  moreover have "[a..<nat (e + 1)] = []" using 0 by simp
  ultimately show ?case by (simp add: count_range.simps)
next
  case (Suc m)
  then have le: "int a \<le> e" by linarith
  have lt: "a < nat (e + 1)" using Suc.hyps(2) by linarith
  have m: "m = nat (e + 1) - Suc a" using Suc.hyps(2) by linarith
  have up: "[a..<nat (e + 1)] = a # [Suc a..<nat (e + 1)]"
    using lt by (simp add: upt_conv_Cons)
  have s: "int a + 1 = int (Suc a)" by simp
  have step: "count_range ds cas (int a) e c =
      count_range ds cas (int (Suc a)) e
        (if js_index ds (int a) = js_index cas (int a) then c + 1 else c)"
    using le by (subst count_range.simps) (simp only: s if_True)
  show ?case
    unfolding step Suc.hyps(1) [OF m] up by simp
qed

lemma filter_window:
  assumes "b \<le> n"
  shows "filter (\<lambda>i. a \<le> i \<and> i < b \<and> P i) [0..<n] = filter P [a..<b]"
proof (rule sorted_distinct_set_unique)
  show "sorted (filter (\<lambda>i. a \<le> i \<and> i < b \<and> P i) [0..<n])"
    by (rule sorted_wrt_filter) simp
  show "sorted (filter P [a..<b])"
    by (rule sorted_wrt_filter) simp
  show "set (filter (\<lambda>i. a \<le> i \<and> i < b \<and> P i) [0..<n]) = set (filter P [a..<b])"
    using assms by auto
qed simp_all

text \<open>
  Inside the sheet, with a key whose answers are option indices, the loop's subtotal is the
  specification's: the out-of-range reads and the zero of an unanswered question are the
  only ways for the two to part.
\<close>

lemma subject_correct_in_range:
  assumes len: "length cas = length ds"
    and valid: "\<forall>a \<in> set cas. 1 \<le> a \<and> a \<le> 4"
    and lo: "1 \<le> range_start r"
    and hi: "range_end r \<le> int (length ds)"
  shows "subject_correct ds cas r = correct_in_range ds cas r"
proof -
  let ?a = "nat (range_start r - 1)" and ?b = "nat (range_end r)"
  have b: "?b \<le> length ds" using hi by linarith
  have match: "(js_index ds (int j) = js_index cas (int j)) = is_correct ds cas j"
    if "j \<in> set [?a..<?b]" for j
  proof -
    from that b have j: "j < length ds" by simp
    then have "cas ! j \<in> set cas" using len by simp
    with valid have "cas ! j \<noteq> 0" by fastforce
    with j len show ?thesis
      by (auto simp: js_index_in_range is_correct_def)
  qed
  have "subject_correct ds cas r =
      int (length (filter (\<lambda>j. js_index ds (int j) = js_index cas (int j)) [?a..<?b]))"
    using lo count_range_upt [of ds cas ?a "range_end r - 1" 0]
    by (simp add: subject_correct_def)
  also have "filter (\<lambda>j. js_index ds (int j) = js_index cas (int j)) [?a..<?b] =
      filter (is_correct ds cas) [?a..<?b]"
    by (rule filter_cong [OF refl]) (rule match)
  also have "filter (is_correct ds cas) [?a..<?b] =
      filter (\<lambda>i. ?a \<le> i \<and> i < ?b \<and> is_correct ds cas i) [0..<length ds]"
    using b by (simp add: filter_window)
  also have "\<dots> = filter (\<lambda>i. range_start r \<le> int i + 1 \<and> int i + 1 \<le> range_end r
                   \<and> is_correct ds cas i) [0..<length ds]"
    using lo by (intro filter_cong refl) auto
  finally show ?thesis by (simp add: correct_in_range_def how_many_def)
qed

section \<open>Claims about the subject subtotals\<close>

text \<open>
  C3. The claim: the score recorded for a subject is the number of questions classified
  correct whose 1-based index lies in the subject's range. The loop also counts every index
  of the range that lies outside the sheet, where both reads are \<open>undefined\<close>. With a last
  subject entered as 81 to 110, a key of valid options (all 1) and a sheet on which no
  question is correct (all 3), the row records 10 for that subject; the number of correct
  questions with index in 81 to 110 is 0.
\<close>

theorem C3_subject_score_counts_missing_questions:
  "map_option (\<lambda>row. (detected_answers row, correct_answers row, subject_scores row))
     (simulateOMRProcessing ''sheet-1'' [key_hindi_110] always_half)
     = Some (replicate 100 3, 0,
         [(''english'', 0), (''math'', 0), (''science'', 0), (''social'', 0), (''hindi'', 10)])
   \<and> list_all (\<lambda>a. 1 \<le> a \<and> a \<le> 4) (answers key_hindi_110)
   \<and> length (answers key_hindi_110) = 100
   \<and> correct_in_range (replicate 100 3) (answers key_hindi_110)
        \<lparr>range_start = 81, range_end = 110\<rparr> = 0"
proof -
  have "correct_in_range (replicate 100 3) (replicate 100 1)
      \<lparr>range_start = 81, range_end = 110\<rparr> = 0"
    by code_simp
  then show ?thesis
    by (simp add: always_half_row key_hindi_110_def counts_of_samples list_all_iff)
qed

section \<open>Properties of the random fields\<close>

lemma always_almost_one_row:
  assumes "total_questions answerKey \<noteq> 0"
  shows "simulateOMRProcessing sheetId (answerKey # others) always_almost_one =
     Some \<lparr>sheet_id = sheetId,
        answer_key_id = key_id answerKey,
        detected_answers = replicate 100 4,
        subject_scores =
          subject_scores_of (replicate 100 4) (answers answerKey) (subject_breakdown answerKey),
        total_score = fst (score_counts (replicate 100 4) (answers answerKey)),
        result_max_score = max_score answerKey,
        percentage = binary64 (toFixed2 (percentage_of
          (fst (score_counts (replicate 100 4) (answers answerKey)))
          (total_questions answerKey))),
        correct_answers = fst (score_counts (replicate 100 4) (answers answerKey)),
        incorrect_answers = fst (snd (score_counts (replicate 100 4) (answers answerKey))),
        unanswered = snd (snd (score_counts (replicate 100 4) (answers answerKey))),
        confidence_score = 100,
        processing_time = 5999\<rparr>"
  using simulate_constant [OF always_almost_one_draws(1,2) assms, of sheetId others]
  unfolding always_almost_one_draws(3-5) .

lemma confidence_range:
  assumes "0 \<le> r" "r < 1"
  shows "80 \<le> js_add (js_mul r 20) 80" and "js_add (js_mul r 20) 80 \<le> 100"
proof -
  have "r * 20 \<le> 20" using assms by simp
  then have "binary64 (r * 20) \<le> binary64 20" by (rule binary64_mono)
  then have hi: "binary64 (r * 20) + 80 \<le> 100" by (simp add: binary64_whole)
  have "0 \<le> binary64 (r * 20)" using assms by (intro binary64_nonneg) simp
  then have lo: "80 \<le> binary64 (r * 20) + 80" by simp
  from binary64_mono [OF lo] show "80 \<le> js_add (js_mul r 20) 80"
    by (simp add: js_add_def js_mul_def binary64_whole)
  from binary64_mono [OF hi] show "js_add (js_mul r 20) 80 \<le> 100"
    by (simp add: js_add_def js_mul_def binary64_whole)
qed

lemma confidence_below_100:
  assumes "r \<le> 1 - 5 / 2 ^ 53"
  shows "js_add (js_mul r 20) 80 < 100"
proof -
  have "r * 20 \<le> 45035996273704935 / 2251799813685248" using assms by simp
  then have "binary64 (r * 20) \<le> binary64 (45035996273704935 / 2251799813685248)"
    by (rule binary64_mono)
  then have "binary64 (r * 20) + 80 \<le> 28147497671065597 / 281474976710656"
    by (simp add: binary64_near_one_20)
  then have "binary64 (binary64 (r * 20) + 80)
      \<le> binary64 (28147497671065597 / 281474976710656)"
    by (rule binary64_mono)
  then show ?thesis
    by (simp add: js_add_def js_mul_def binary64_near_one_conf)
qed

lemma processing_time_range:
  assumes "binary64 r = r" "0 \<le> r" "r < 1"
  shows "1000 \<le> \<lfloor>js_mul r 5000\<rfloor> + 1000" and "\<lfloor>js_mul r 5000\<rfloor> + 1000 < 6000"
proof -
  have "0 \<le> binary64 (r * 5000)" using assms(2) by (intro binary64_nonneg) simp
  then show "1000 \<le> \<lfloor>js_mul r 5000\<rfloor> + 1000" by (simp add: js_mul_def)
  have "r \<le> 1 - 1 / 2 ^ 53" using assms(1,3) by (rule binary64_below_one)
  then have "r * 5000 \<le> 5629499534213119375 / 1125899906842624" by simp
  then have "binary64 (r * 5000) \<le> binary64 (5629499534213119375 / 1125899906842624)"
    by (rule binary64_mono)
  then have "binary64 (r * 5000) < 5000" by (simp add: binary64_last_5000)
  then show "\<lfloor>js_mul r 5000\<rfloor> + 1000 < 6000"
    by (simp add: js_mul_def floor_less_iff)
qed

lemma binary64_top_four_20: "binary64 (11258999068426235 / 562949953421312) = 2814749767106559 / 140737488355328"
proof -
  have "binary64 (11258999068426235 / 562949953421312) = of_int 5629499534213118 * 2 powi (4 - 52)"
    by (rule binary64_eval_tie [where f = 5629499534213117]) simp_all
  then show ?thesis by simp
qed

lemma binary64_top_four_conf: "binary64 (14073748835532799 / 140737488355328) = 100"
proof -
  have "binary64 (14073748835532799 / 140737488355328) = of_int 7036874417766400 * 2 powi (6 - 52)"
    by (rule binary64_eval_tie [where f = 7036874417766399]) simp_all
  then show ?thesis by simp
qed

text \<open>
  The four largest binary64 numbers below 1, from \<open>1 - 2^-51\<close> on, all give a confidence
  score of exactly 100.
\<close>

lemma confidence_100:
  assumes "1 - 1 / 2 ^ 51 \<le> r" and "r < 1"
  shows "js_add (js_mul r 20) 80 = 100"
proof -
  have "11258999068426235 / 562949953421312 \<le> r * 20" using assms(1) by simp
  then have "binary64 (11258999068426235 / 562949953421312) \<le> binary64 (r * 20)"
    by (rule binary64_mono)
  then have "14073748835532799 / 140737488355328 \<le> binary64 (r * 20) + 80"
    by (simp add: binary64_top_four_20)
  then have "binary64 (14073748835532799 / 140737488355328) \<le> binary64 (binary64 (r * 20) + 80)"
    by (rule binary64_mono)
  then have "100 \<le> js_add (js_mul r 20) 80"
    by (simp add: js_add_def js_mul_def binary64_top_four_conf)
  moreover have "js_add (js_mul r 20) 80 \<le> 100"
    using assms by (intro confidence_range(2)) simp_all
  ultimately show ?thesis by simp
qed

section \<open>Claims about the random fields\<close>

text \<open>
  C10. The claim: the confidence score lies in the half-open interval \<open>[80, 100)\<close>. The
  sum \<open>Math.random() * 20 + 80\<close> is rounded to binary64: with the draw \<open>1 - 2^-52\<close>, a
  binary64 number below 1, the row carries a confidence score of exactly 100.
\<close>

theorem C10_confidence_reaches_100_counterexample:
  "(\<forall>n. binary64 (always_almost_one n) = always_almost_one n
        \<and> 0 \<le> always_almost_one n \<and> always_almost_one n < 1)
   \<and> map_option (\<lambda>row. (confidence_score row, confidence_score row < 100, processing_time row))
        (simulateOMRProcessing ''sheet-1'' [key_all_threes] always_almost_one)
      = Some (100, False, 5999)"
  by (simp add: always_almost_one_row key_all_threes_def)
    (simp add: always_almost_one_def binary64_almost_one)

text \<open>
  C10, amended. With every draw of the generator a binary64 number in \<open>[0, 1)\<close>, a row
  written by the stub has a confidence score in the closed interval \<open>[80, 100]\<close> and a
  processing time in \<open>[1000, 6000)\<close>; the confidence score is below 100 unless its draw
  is one of the four largest binary64 numbers below 1. Both are computed from two draws of
  their own: the detected answers are fixed by the draws before position \<open>k\<close>, the
  confidence score is a function of draw \<open>k\<close> and the processing time of draw \<open>k + 1\<close>.
  The image is no input of the function, and for any other sheet and answer key the same
  draws give the same two values.
\<close>

theorem C10_confidence_and_processing_time:
  assumes draws: "\<forall>n. binary64 (rnd n) = rnd n \<and> 0 \<le> rnd n \<and> rnd n < 1"
    and row: "simulateOMRProcessing sheetId answerKeys rnd = Some row"
  shows "80 \<le> confidence_score row \<and> confidence_score row \<le> 100
     \<and> 1000 \<le> processing_time row \<and> processing_time row < 6000
     \<and> (\<exists>k. generate_answers rnd 100 0 = (detected_answers row, k)
            \<and> confidence_score row = js_add (js_mul (rnd k) 20) 80
            \<and> processing_time row = \<lfloor>js_mul (rnd (k + 1)) 5000\<rfloor> + 1000
            \<and> (rnd k \<le> 1 - 5 / 2 ^ 53 \<longrightarrow> confidence_score row < 100)
            \<and> (\<forall>rnd'. (\<forall>n < k. rnd' n = rnd n) \<longrightarrow>
                  generate_answers rnd' 100 0 = (detected_answers row, k)))
     \<and> (\<forall>sheetId' answerKeys' row'.
            simulateOMRProcessing sheetId' answerKeys' rnd = Some row' \<longrightarrow>
            confidence_score row' = confidence_score row
            \<and> processing_time row' = processing_time row)"
proof -
  define k where "k = snd (generate_answers rnd 100 0)"
  from row obtain answerKey others where keys: "answerKeys = answerKey # others"
    by (cases answerKeys) (simp_all add: simulate_no_key)
  note f = simulate_fields [OF row [unfolded keys]]
  have c: "confidence_score row = js_add (js_mul (rnd k) 20) 80"
    and t: "processing_time row = \<lfloor>js_mul (rnd (k + 1)) 5000\<rfloor> + 1000"
    and g: "generate_answers rnd 100 0 = (detected_answers row, k)"
    using f(8) f(9) f(2) by (simp_all add: k_def)
  from draws have r0: "0 \<le> rnd k" and r1: "rnd k < 1"
    and sb: "binary64 (rnd (k + 1)) = rnd (k + 1)"
    and s0: "0 \<le> rnd (k + 1)" and s1: "rnd (k + 1) < 1" by simp_all
  have conf: "80 \<le> confidence_score row \<and> confidence_score row \<le> 100"
    using confidence_range [OF r0 r1] c by simp
  have time: "1000 \<le> processing_time row \<and> processing_time row < 6000"
    using processing_time_range [OF sb s0 s1] t by simp
  have below: "rnd k \<le> 1 - 5 / 2 ^ 53 \<longrightarrow> confidence_score row < 100"
    using confidence_below_100 [of "rnd k"] c by simp
  have fresh: "\<forall>rnd'. (\<forall>n < k. rnd' n = rnd n) \<longrightarrow>
      generate_answers rnd' 100 0 = (detected_answers row, k)"
  proof (intro allI impI)
    fix rnd' :: rng
    assume "\<forall>n < k. rnd' n = rnd n"
    then have "generate_answers rnd' 100 0 = generate_answers rnd 100 0"
      by (intro generate_answers_prefix) (simp add: k_def)
    with g show "generate_answers rnd' 100 0 = (detected_answers row, k)" by simp
  qed
  have same: "\<forall>sheetId' answerKeys' row'.
      simulateOMRProcessing sheetId' answerKeys' rnd = Some row' \<longrightarrow>
      confidence_score row' = confidence_score row \<and> processing_time row' = processing_time row"
  proof (intro allI impI)
    fix sheetId' :: string and answerKeys' :: "answer_key list" and row'
    assume row': "simulateOMRProcessing sheetId' answerKeys' rnd = Some row'"
    then obtain answerKey' others' where keys': "answerKeys' = answerKey' # others'"
      by (cases answerKeys') (simp_all add: simulate_no_key)
    note f' = simulate_fields [OF row' [unfolded keys']]
    show "confidence_score row' = confidence_score row \<and> processing_time row' = processing_time row"
      using f'(8) f'(9) c t by (simp add: k_def)
  qed
  from conf time g c t below fresh same show ?thesis by blast
qed

theorem C10_confidence_and_processing_time_witness:
  "(\<forall>n. binary64 (always_half n) = always_half n \<and> 0 \<le> always_half n \<and> always_half n < 1)
   \<and> (\<forall>n. always_half n \<le> 1 - 5 / 2 ^ 53)
   \<and> map_option (\<lambda>row. (confidence_score row, processing_time row))
        (simulateOMRProcessing ''sheet-1'' [key_all_threes] always_half) = Some (90, 3500)"
proof -
  have "binary64 (1 / 2) = of_int 4503599627370496 * 2 powi (- 1 - 52)"
    by (rule binary64_eval) simp_all
  then have half: "binary64 (1 / 2) = 1 / 2" by simp
  have draws: "\<forall>n. binary64 (always_half n) = always_half n
      \<and> 0 \<le> always_half n \<and> always_half n < 1"
    by (simp add: always_half_def half)
  have small: "\<forall>n. always_half n \<le> 1 - 5 / 2 ^ 53"
    by (simp add: always_half_def)
  have ev: "map_option (\<lambda>row. (confidence_score row, processing_time row))
        (simulateOMRProcessing ''sheet-1'' [key_all_threes] always_half) = Some (90, 3500)"
    by (simp add: always_half_row key_all_threes_def)
  then obtain row
    where row: "simulateOMRProcessing ''sheet-1'' [key_all_threes] always_half = Some row"
    by (cases "simulateOMRProcessing ''sheet-1'' [key_all_threes] always_half") simp_all
  from C10_confidence_and_processing_time [OF draws row] draws small ev
  show ?thesis by simp
qed

section \<open>Properties of the cohort statistics\<close>



subsection \<open>Permutations\<close>








subsection \<open>The accumulation as one fold over the entries\<close>



subsection \<open>The counts do not depend on the rounding\<close>







subsection \<open>Sums of whole numbers below \<open>2^53\<close> are exact\<close>














subsection \<open>Permutations of results with exact sums\<close>







lemma recent_trends_length: "length (recent_trends iso_day days_ago results) = 7"
  by (simp add: recent_trends_def)

lemma score_distribution_length: "length (score_distribution scores) = 6"
  by (simp add: score_distribution_def scoreRanges_def)

text \<open>
  Whole percentages from 0 to 100 fall in exactly one of the ranges of \<open>scoreRanges\<close>.
\<close>

lemma score_distribution_whole:
  assumes "\<forall>s \<in> set scores. \<exists>n::int. s = of_int n \<and> 0 \<le> n \<and> n \<le> 100"
  shows "sum_list (map snd (score_distribution scores)) = length scores"
  using assms
proof (induction scores)
  case Nil
  show ?case by (simp add: score_distribution_def scoreRanges_def)
next
  case (Cons s scores)
  then obtain n :: int where n: "s = of_int n" "0 \<le> n" "n \<le> 100" by auto
  have rest: "sum_list (map snd (score_distribution scores)) = length scores"
    using Cons by simp
  consider "90 \<le> n" | "80 \<le> n" "n \<le> 89" | "70 \<le> n" "n \<le> 79" | "60 \<le> n" "n \<le> 69"
    | "50 \<le> n" "n \<le> 59" | "n \<le> 49"
    by linarith
  then show ?case
    using rest n by cases (simp_all add: score_distribution_def scoreRanges_def)
qed

text \<open>
  The stub itself writes such percentages: 16 correct answers under a key of 27 questions
  give 59.26, which lies in none of the ranges.
\<close>

lemma stub_percentage_between_ranges:
  "toFixed2 (percentage_of 16 27) = 2963 / 50
   \<and> sum_list (map snd (score_distribution [2963 / 50])) = 0"
proof -
  have p: "percentage_of 16 27 = 4169999654972681 / 70368744177664"
    by (simp add: percentage_of_def js_mul_def js_div_def binary64_16_27 binary64_16_27_100)
  have "\<lfloor>(4169999654972681::rat) / 70368744177664 * 100 + 1 / 2\<rfloor> = 5926"
    by (rule floor_unique) simp_all
  then have "toFixed2 (percentage_of 16 27) = 2963 / 50"
    unfolding p by (simp add: toFixed2_round round_half_away_2dp_def)
  moreover have "sum_list (map snd (score_distribution [2963 / 50])) = 0"
    by (simp add: score_distribution_def scoreRanges_def)
  ultimately show ?thesis by simp
qed

section \<open>Claims about the cohort statistics\<close>

text \<open>
  C6. The claim: the statistics of an empty sequence carry a trend of N = 7 entries, each
  with count 0. \<open>loadAnalyticsData\<close> returns before the trend loop when there is no
  result: the trend of an empty sequence has no entry.
\<close>

theorem C6_empty_trend_counterexample:
  "recentTrends (loadAnalyticsData sample_iso_day sample_days_ago []) = []
   \<and> length (recentTrends (loadAnalyticsData sample_iso_day sample_days_ago [])) \<noteq> 7"
  by (simp add: loadAnalyticsData_def)

text \<open>
  C6, amended. Aggregating an empty sequence is not an error: the student count, the
  average, the highest and the lowest score are 0, the subject and version maps are
  empty, and so are the score distribution and the trend. The trend has its seven
  entries, one per day of the window, as soon as there is one result.
\<close>

theorem C6_empty_statistics:
  "loadAnalyticsData iso_day days_ago [] =
     \<lparr>totalStudents = 0, averageScore = 0, highestScore = 0, lowestScore = 0,
      subjectPerformance = Map.empty, versionPerformance = Map.empty,
      scoreDistribution = [], recentTrends = []\<rparr>
   \<and> length (recentTrends (loadAnalyticsData iso_day days_ago (r # rs))) = 7"
  by (simp add: loadAnalyticsData_def Let_def recent_trends_length)

text \<open>
  C7. The claim: the buckets \<open>[0,50)\<close>, \<open>[50,60)\<close>, \<open>[60,70)\<close>, \<open>[70,80)\<close>, \<open>[80,90)\<close>,
  \<open>[90,100]\<close> hold every percentage once, so the counts add up to the number of
  results. The ranges of the code are closed and end at 49, 59, 69, 79 and 89: a single
  result of 89.5 per cent is counted nowhere, and the counts add up to 0. The histogram of
  the specification has it in \<open>[80,90)\<close>.
\<close>

theorem C7_percentage_between_buckets:
  "scoreDistribution (loadAnalyticsData sample_iso_day sample_days_ago
       [sample_result (179 / 2) [] ''A'' ''2025-09-21''])
     = [(''90-100%'', 0), (''80-89%'', 0), (''70-79%'', 0), (''60-69%'', 0), (''50-59%'', 0),
        (''0-49%'', 0)]
   \<and> sum_list (map snd (scoreDistribution (loadAnalyticsData sample_iso_day sample_days_ago
       [sample_result (179 / 2) [] ''A'' ''2025-09-21'']))) = 0
   \<and> length [sample_result (179 / 2) [] ''A'' ''2025-09-21''] = 1
   \<and> spec_distribution [179 / 2] = [0, 0, 0, 0, 1, 0]"
  by (simp add: loadAnalyticsData_def Let_def score_distribution_def scoreRanges_def
      sample_result_def spec_distribution_def binary64_179_2)




end
